theory Spec2Isabelle
  imports Complex_Main "HOL-Library.Finite_Map"
begin

section \<open>Data model\<close>

text \<open>
  The utility handles the dictionaries that boto3 returns. A hashable Python value that can
  key a dictionary is a string or a boolean here.
\<close>

datatype pyval = PyStr string | PyBool bool

text \<open>
  A parameter of a parameter group, as \<^verbatim>\<open>describe_db_parameters\<close> returns it: a dictionary
  that always has the keys \<^verbatim>\<open>ParameterName\<close> and \<^verbatim>\<open>IsModifiable\<close>, has the key
  \<^verbatim>\<open>ParameterValue\<close> only when a value is set (\<open>None\<close>: the key is absent), and carries
  further string fields (description, data type, apply method, ...) that the utility only
  passes through. Equality of records is equality of all fields, as \<^verbatim>\<open>!=\<close> on two
  Python dictionaries is.
\<close>

record parameter =
  ParameterName :: string
  ParameterValue :: "string option"
  IsModifiable :: bool
  Metadata :: "(string, string) fmap"

datatype error =
    Exception string
  | ValueError string
  | KeyError pyval
  | IndexError
  | TypeError
  | ClientError string
  | NoResponse
  | NonTermination

text \<open>The subscript \<^verbatim>\<open>p[key]\<close> on a parameter dictionary, and the test \<^verbatim>\<open>key in p\<close>.\<close>

definition getitem :: "parameter \<Rightarrow> string \<Rightarrow> error + pyval" where
  "getitem p key =
     (if key = ''ParameterName'' then Inr (PyStr (ParameterName p))
      else if key = ''IsModifiable'' then Inr (PyBool (IsModifiable p))
      else if key = ''ParameterValue'' then
        (case ParameterValue p of
           None \<Rightarrow> Inl (KeyError (PyStr key))
         | Some v \<Rightarrow> Inr (PyStr v))
      else
        (case fmlookup (Metadata p) key of
           None \<Rightarrow> Inl (KeyError (PyStr key))
         | Some v \<Rightarrow> Inr (PyStr v)))"

definition has_key :: "parameter \<Rightarrow> string \<Rightarrow> bool" where
  "has_key p key = (case getitem p key of Inl e \<Rightarrow> False | Inr v \<Rightarrow> True)"

text \<open>
  A Python dictionary built by the program: an association list in insertion order, with
  one entry per key. Assigning to a key that is present replaces the value where it stands;
  assigning to a new key appends an entry.
\<close>

type_synonym ('k, 'v) dict = "('k \<times> 'v) list"

definition dict_contains :: "('k, 'v) dict \<Rightarrow> 'k \<Rightarrow> bool" where
  "dict_contains d k = (k \<in> fst ` set d)"

fun dict_setitem :: "('k, 'v) dict \<Rightarrow> 'k \<Rightarrow> 'v \<Rightarrow> ('k, 'v) dict" where
  "dict_setitem [] k v = [(k, v)]"
| "dict_setitem ((k', v') # d) k v =
     (if k' = k then (k, v) # d else (k', v') # dict_setitem d k v)"

definition dict_getitem :: "(pyval, 'v) dict \<Rightarrow> pyval \<Rightarrow> error + 'v" where
  "dict_getitem d k = (case map_of d k of None \<Rightarrow> Inl (KeyError k) | Some v \<Rightarrow> Inr v)"

definition dict_delitem :: "('k, 'v) dict \<Rightarrow> 'k \<Rightarrow> ('k, 'v) dict" where
  "dict_delitem d k = filter (\<lambda>kv. fst kv \<noteq> k) d"

section \<open>Helpers of the utility\<close>

text \<open>\<^verbatim>\<open>append_if_value_present\<close>: the list with the record appended when it has a value.\<close>

definition append_if_value_present :: "parameter list \<Rightarrow> parameter \<Rightarrow> parameter list" where
  "append_if_value_present list_to_append eval_append =
     (if has_key eval_append ''ParameterValue'' then list_to_append @ [eval_append]
      else list_to_append)"

text \<open>
  \<^verbatim>\<open>change_list_to_dict\<close>: the loop over the list, with the dictionary built so far. The
  test before each assignment is \<^verbatim>\<open>key in dict_to_export.keys()\<close>, on the field name
  \<^verbatim>\<open>key\<close> itself.
\<close>

fun change_list_to_dict_loop ::
  "parameter list \<Rightarrow> string \<Rightarrow> (pyval, parameter) dict \<Rightarrow> error + (pyval, parameter) dict" where
  "change_list_to_dict_loop [] key dict_to_export = Inr dict_to_export"
| "change_list_to_dict_loop (each_obj_in_list # rest) key dict_to_export =
     (if dict_contains dict_to_export (PyStr key)
      then Inl (Exception ''This key name is not unique.'')
      else (case getitem each_obj_in_list key of
              Inl e \<Rightarrow> Inl e
            | Inr k \<Rightarrow>
                change_list_to_dict_loop rest key (dict_setitem dict_to_export k each_obj_in_list)))"

definition change_list_to_dict ::
  "parameter list \<Rightarrow> string \<Rightarrow> error + (pyval, parameter) dict" where
  "change_list_to_dict list_to_convert key = change_list_to_dict_loop list_to_convert key []"

text \<open>
  A Python slice \<^verbatim>\<open>xs[a:b]\<close>: a negative index counts from the end, and both indices are
  clamped to the list.
\<close>

definition slice_index :: "int \<Rightarrow> int \<Rightarrow> nat" where
  "slice_index n i = nat (if i < 0 then max 0 (i + n) else min i n)"

definition slice :: "'a list \<Rightarrow> int \<Rightarrow> int \<Rightarrow> 'a list" where
  "slice xs a b =
     (let n = int (length xs); lo = slice_index n a; hi = slice_index n b
      in take (hi - lo) (drop lo xs))"

text \<open>
  \<^verbatim>\<open>chunks\<close> is a generator; its result here is the list of the slices it yields, when the
  loop ends. With a chunk size of zero or less and a non-empty sequence the loop never ends,
  and the result is \<open>None\<close>.
\<close>

partial_function (option) chunks_from ::
  "'a list \<Rightarrow> int \<Rightarrow> int \<Rightarrow> 'a list list \<Rightarrow> 'a list list option" where
  "chunks_from sequence chunk_size start yielded =
     (if start < int (length sequence)
      then chunks_from sequence chunk_size (start + chunk_size)
             (yielded @ [slice sequence start (start + chunk_size)])
      else Some yielded)"

definition chunks :: "'a list \<Rightarrow> int \<Rightarrow> 'a list list option" where
  "chunks sequence chunk_size = chunks_from sequence chunk_size 0 []"

section \<open>The remote service, the terminal and programs\<close>

text \<open>
  A parameter group as \<^verbatim>\<open>describe_db_parameter_groups\<close> lists it, and a response of the
  service: a dictionary in which each of the keys \<^verbatim>\<open>DBParameterGroups\<close>, \<^verbatim>\<open>Parameters\<close>
  and \<^verbatim>\<open>Marker\<close> is present or not.
\<close>

record db_parameter_group =
  DBParameterGroupName :: string
  DBParameterGroupFamily :: string
  Description :: string
  DBParameterGroupArn :: string

record response =
  DBParameterGroups :: "db_parameter_group list option"
  Parameters :: "parameter list option"
  Marker :: "string option"

text \<open>A client is \<^verbatim>\<open>boto3.client("rds", region_name=...)\<close>: it is known by its region.\<close>

datatype rds_client = Client string

datatype request =
    DescribeDBParameterGroups "string option" "string option"
  | DescribeDBParameters string "string option"
  | CreateDBParameterGroup string string string "(string \<times> string) list"
  | ModifyDBParameterGroup string "parameter list"

text \<open>One constructor for each \<^verbatim>\<open>print\<close> statement of the source, with the values it formats.\<close>

datatype printed =
    Created string
  | NumberToSet nat
  | Complete
  | Comparing string string
  | NumberSource nat
  | NumberDest nat
  | FamilyMismatch
  | SourceFamily string
  | DestFamily string
  | Family string
  | Blank
  | DiffLikeComparison
  | SourceGroupName string
  | DestGroupName string
  | NameLine pyval
  | Less parameter
  | Greater parameter
  | MergingDifferences string string
  | Assignment pyval pyval

text \<open>
  The world a run acts on: the answers the service will give to the calls of this run, in
  the order of the calls (\<open>Inl\<close>: the service refuses the call with this message, and
  boto3 raises a \<^verbatim>\<open>ClientError\<close>); the calls issued so far; the lines printed so far. A
  call made when no answer is left ends the run with \<open>NoResponse\<close>.
\<close>

record world =
  responses :: "(string + response) list"
  calls :: "(rds_client \<times> request) list"
  stdout :: "printed list"

type_synonym 'a prog = "world \<Rightarrow> (error + 'a) \<times> world"

definition return_io :: "'a \<Rightarrow> 'a prog" where
  "return_io x w = (Inr x, w)"

definition raise_io :: "error \<Rightarrow> 'a prog" where
  "raise_io e w = (Inl e, w)"

definition lift_io :: "error + 'a \<Rightarrow> 'a prog" where
  "lift_io r w = (r, w)"

definition bind_io :: "'a prog \<Rightarrow> ('a \<Rightarrow> 'b prog) \<Rightarrow> 'b prog" where
  "bind_io m f w = (case m w of (Inl e, w') \<Rightarrow> (Inl e, w') | (Inr x, w') \<Rightarrow> f x w')"

definition print_io :: "printed \<Rightarrow> unit prog" where
  "print_io line w = (Inr (), w\<lparr>stdout := stdout w @ [line]\<rparr>)"

definition remote_call :: "rds_client \<Rightarrow> request \<Rightarrow> response prog" where
  "remote_call c rq w =
     (case responses w of
        [] \<Rightarrow> (Inl NoResponse, w\<lparr>calls := calls w @ [(c, rq)]\<rparr>)
      | Inl message # rs \<Rightarrow>
          (Inl (ClientError message), w\<lparr>responses := rs, calls := calls w @ [(c, rq)]\<rparr>)
      | Inr r # rs \<Rightarrow> (Inr r, w\<lparr>responses := rs, calls := calls w @ [(c, rq)]\<rparr>))"

definition describe_db_parameter_groups ::
  "rds_client \<Rightarrow> string option \<Rightarrow> string option \<Rightarrow> response prog" where
  "describe_db_parameter_groups c name marker = remote_call c (DescribeDBParameterGroups name marker)"

definition describe_db_parameters ::
  "rds_client \<Rightarrow> string \<Rightarrow> string option \<Rightarrow> response prog" where
  "describe_db_parameters c name marker = remote_call c (DescribeDBParameters name marker)"

definition create_db_parameter_group ::
  "rds_client \<Rightarrow> string \<Rightarrow> string \<Rightarrow> string \<Rightarrow> (string \<times> string) list \<Rightarrow> response prog" where
  "create_db_parameter_group c name family description tags =
     remote_call c (CreateDBParameterGroup name family description tags)"

definition modify_db_parameter_group ::
  "rds_client \<Rightarrow> string \<Rightarrow> parameter list \<Rightarrow> response prog" where
  "modify_db_parameter_group c name parameters = remote_call c (ModifyDBParameterGroup name parameters)"

text \<open>\<^verbatim>\<open>summary["DBParameterGroups"][0]\<close>, and \<^verbatim>\<open>" ".join(argv)\<close>.\<close>

definition first_group :: "response \<Rightarrow> error + db_parameter_group" where
  "first_group summary =
     (case DBParameterGroups summary of
        None \<Rightarrow> Inl (KeyError (PyStr ''DBParameterGroups''))
      | Some [] \<Rightarrow> Inl IndexError
      | Some (g # gs) \<Rightarrow> Inr g)"

fun join_spaces :: "string list \<Rightarrow> string" where
  "join_spaces [] = []"
| "join_spaces [s] = s"
| "join_spaces (s # t # ts) = s @ '' '' @ join_spaces (t # ts)"

section \<open>Paginated retrieval\<close>

text \<open>
  The variable \<^verbatim>\<open>pagination_token\<close> holds \<^verbatim>\<open>None\<close> before the first request,
  \<^verbatim>\<open>False\<close> after a response without \<^verbatim>\<open>Marker\<close>, and the marker otherwise.
\<close>

datatype token = TokenNone | TokenFalse | TokenMarker string

fun marker_of :: "token \<Rightarrow> string option" where
  "marker_of (TokenMarker m) = Some m"
| "marker_of t = None"

definition next_token :: "response \<Rightarrow> token" where
  "next_token chunk = (case Marker chunk of Some m \<Rightarrow> TokenMarker m | None \<Rightarrow> TokenFalse)"

lemma remote_call_consumes:
  "remote_call c rq w = (Inr r, w') \<Longrightarrow> length (responses w') < length (responses w)"
  by (auto simp: remote_call_def split: list.splits sum.splits)

function return_parameter_groups_loop ::
  "rds_client \<Rightarrow> token \<Rightarrow> string list \<Rightarrow> world \<Rightarrow> (error + string list) \<times> world" where
  "return_parameter_groups_loop c pagination_token groups_to_return w =
     (if pagination_token = TokenFalse then (Inr groups_to_return, w)
      else (case describe_db_parameter_groups c None (marker_of pagination_token) w of
              (Inl e, w') \<Rightarrow> (Inl e, w')
            | (Inr group_chunk, w') \<Rightarrow>
                (case DBParameterGroups group_chunk of
                   None \<Rightarrow> (Inl (KeyError (PyStr ''DBParameterGroups'')), w')
                 | Some gs \<Rightarrow>
                     return_parameter_groups_loop c (next_token group_chunk)
                       (groups_to_return @ map DBParameterGroupName gs) w')))"
  by pat_completeness auto
termination
  by (relation "measure (\<lambda>(c, t, g, w). length (responses w))")
     (auto simp: describe_db_parameter_groups_def dest: remote_call_consumes[OF sym])

declare return_parameter_groups_loop.simps [simp del]

definition return_parameter_groups :: "rds_client \<Rightarrow> string list prog" where
  "return_parameter_groups rds_client_obj = return_parameter_groups_loop rds_client_obj TokenNone []"

function return_all_parameters_loop ::
  "rds_client \<Rightarrow> string \<Rightarrow> token \<Rightarrow> parameter list \<Rightarrow> world \<Rightarrow> (error + parameter list) \<times> world" where
  "return_all_parameters_loop c param_group pagination_token parameters_to_return w =
     (if pagination_token = TokenFalse then (Inr parameters_to_return, w)
      else (case describe_db_parameters c param_group (marker_of pagination_token) w of
              (Inl e, w') \<Rightarrow> (Inl e, w')
            | (Inr param_chunk, w') \<Rightarrow>
                (case Parameters param_chunk of
                   None \<Rightarrow> (Inl (KeyError (PyStr ''Parameters'')), w')
                 | Some ps \<Rightarrow>
                     return_all_parameters_loop c param_group (next_token param_chunk)
                       (parameters_to_return @ ps) w')))"
  by pat_completeness auto
termination
  by (relation "measure (\<lambda>(c, g, t, ps, w). length (responses w))")
     (auto simp: describe_db_parameters_def dest: remote_call_consumes[OF sym])

declare return_all_parameters_loop.simps [simp del]

definition return_all_parameters_from_parameter_group ::
  "rds_client \<Rightarrow> string \<Rightarrow> parameter list prog" where
  "return_all_parameters_from_parameter_group rds_client_obj param_group =
     return_all_parameters_loop rds_client_obj param_group TokenNone []"

text \<open>The loop of the modifiable-filter over the fetched parameters.\<close>

fun modifiable_with_value :: "parameter list \<Rightarrow> parameter list \<Rightarrow> parameter list" where
  "modifiable_with_value [] parameters_to_return = parameters_to_return"
| "modifiable_with_value (p # all_parameters) parameters_to_return =
     modifiable_with_value all_parameters
       (if IsModifiable p then append_if_value_present parameters_to_return p
        else parameters_to_return)"

definition return_all_modifiable_parameters_with_value_from_parameter_group ::
  "rds_client \<Rightarrow> string \<Rightarrow> parameter list prog" where
  "return_all_modifiable_parameters_with_value_from_parameter_group rds_client_obj param_group =
     bind_io (return_all_parameters_from_parameter_group rds_client_obj param_group)
       (\<lambda>all_parameters. return_io (modifiable_with_value all_parameters []))"

section \<open>The batch applier\<close>

fun print_parameters :: "parameter list \<Rightarrow> unit prog" where
  "print_parameters [] = return_io ()"
| "print_parameters (p # parameter_chunk) =
     bind_io (lift_io (getitem p ''ParameterName'')) (\<lambda>name.
     bind_io (lift_io (getitem p ''ParameterValue'')) (\<lambda>val.
     bind_io (print_io (Assignment name val)) (\<lambda>_.
     print_parameters parameter_chunk)))"

fun post_chunks :: "rds_client \<Rightarrow> string \<Rightarrow> parameter list list \<Rightarrow> unit prog" where
  "post_chunks rds_client_obj param_group [] = return_io ()"
| "post_chunks rds_client_obj param_group (parameter_chunk # rest) =
     bind_io (modify_db_parameter_group rds_client_obj param_group parameter_chunk) (\<lambda>_.
     bind_io (print_parameters parameter_chunk) (\<lambda>_.
     post_chunks rds_client_obj param_group rest))"

definition post_parameters_to_group :: "rds_client \<Rightarrow> string \<Rightarrow> parameter list \<Rightarrow> unit prog" where
  "post_parameters_to_group rds_client_obj param_group parameters =
     (if length parameters = 0 then return_io ()
      else (case chunks parameters 20 of
              None \<Rightarrow> raise_io NonTermination
            | Some cs \<Rightarrow> post_chunks rds_client_obj param_group cs))"

section \<open>The workflows\<close>

definition copy_rds_parameters ::
  "string list \<Rightarrow> rds_client \<Rightarrow> string \<Rightarrow> rds_client \<Rightarrow> string \<Rightarrow> unit prog" where
  "copy_rds_parameters argv source_rds_client_obj source_param_group dest_rds_client_obj dest_param_group =
     bind_io (describe_db_parameter_groups source_rds_client_obj (Some source_param_group) None)
       (\<lambda>source_summary.
     bind_io (lift_io (first_group source_summary)) (\<lambda>source_group.
     bind_io (return_all_modifiable_parameters_with_value_from_parameter_group
                source_rds_client_obj source_param_group) (\<lambda>source_parameters.
     bind_io (return_parameter_groups dest_rds_client_obj) (\<lambda>groups_in_dest_region.
     if dest_param_group \<in> set groups_in_dest_region
     then raise_io (ValueError (''This group ('' @ dest_param_group @ '') already exists in region.''))
     else
       bind_io (print_io (Created dest_param_group)) (\<lambda>_.
       bind_io (print_io (NumberToSet (length source_parameters))) (\<lambda>_.
       bind_io (create_db_parameter_group dest_rds_client_obj dest_param_group
                  (DBParameterGroupFamily source_group) (Description source_group)
                  [(''CopiedFrom'', DBParameterGroupArn source_group),
                   (''CopiedUsingCmd'', join_spaces argv),
                   (''Repo'', ''github.com/EpiJunkie/aws_rds_parameter_groups_utility'')]) (\<lambda>_.
       bind_io (post_parameters_to_group dest_rds_client_obj dest_param_group source_parameters) (\<lambda>_.
       print_io Complete))))))))"

text \<open>
  The first loop of the comparison, over the items of the source mapping; it deletes from
  the destination mapping. The second loop, over the items left in the destination mapping.
\<close>

fun compare_source_loop ::
  "(pyval \<times> parameter) list \<Rightarrow> (pyval, parameter) dict \<Rightarrow> (pyval, parameter) dict \<Rightarrow>
   parameter list \<Rightarrow> ((pyval, parameter) dict \<times> parameter list) prog" where
  "compare_source_loop [] source_parameters dest_parameters diff_list =
     return_io (dest_parameters, diff_list)"
| "compare_source_loop ((param_name, param_value) # items) source_parameters dest_parameters diff_list =
     (if \<not> dict_contains dest_parameters param_name then
        bind_io (print_io (NameLine param_name)) (\<lambda>_.
        bind_io (lift_io (dict_getitem source_parameters param_name)) (\<lambda>s.
        bind_io (print_io (Less s)) (\<lambda>_.
        compare_source_loop items source_parameters dest_parameters
          (append_if_value_present diff_list s))))
      else
        bind_io (lift_io (dict_getitem source_parameters param_name)) (\<lambda>s.
        bind_io (lift_io (dict_getitem dest_parameters param_name)) (\<lambda>d.
        if s \<noteq> d then
          bind_io (print_io (NameLine param_name)) (\<lambda>_.
          bind_io (print_io (Less s)) (\<lambda>_.
          bind_io (print_io (Greater d)) (\<lambda>_.
          compare_source_loop items source_parameters (dict_delitem dest_parameters param_name)
            (append_if_value_present diff_list s))))
        else compare_source_loop items source_parameters dest_parameters diff_list)))"

fun compare_dest_loop ::
  "(pyval \<times> parameter) list \<Rightarrow> (pyval, parameter) dict \<Rightarrow> (pyval, parameter) dict \<Rightarrow> unit prog" where
  "compare_dest_loop [] source_parameters dest_parameters = return_io ()"
| "compare_dest_loop ((param_name, param_value) # items) source_parameters dest_parameters =
     (if \<not> dict_contains source_parameters param_name then
        bind_io (print_io (NameLine param_name)) (\<lambda>_.
        bind_io (lift_io (dict_getitem dest_parameters param_name)) (\<lambda>d.
        bind_io (print_io (Greater d)) (\<lambda>_.
        compare_dest_loop items source_parameters dest_parameters)))
      else compare_dest_loop items source_parameters dest_parameters)"

text \<open>
  The comparison of two fetched collections: \<^verbatim>\<open>compare_rds_parameters\<close> from the reindexing
  on (lines 206 to 238). The result is \<open>None\<close> when no list is asked for.
\<close>

definition compare_collections ::
  "parameter list \<Rightarrow> parameter list \<Rightarrow> bool \<Rightarrow> parameter list option prog" where
  "compare_collections source_list dest_list return_list =
     bind_io (lift_io (change_list_to_dict source_list ''ParameterName'')) (\<lambda>source_parameters.
     bind_io (lift_io (change_list_to_dict dest_list ''ParameterName'')) (\<lambda>dest_parameters.
     bind_io (compare_source_loop source_parameters source_parameters dest_parameters [])
       (\<lambda>(dest_parameters, diff_list).
     bind_io (compare_dest_loop dest_parameters source_parameters dest_parameters) (\<lambda>_.
     bind_io (print_io Blank) (\<lambda>_.
     bind_io (print_io Blank) (\<lambda>_.
     if return_list = False
     then bind_io (print_io Complete) (\<lambda>_. return_io None)
     else return_io (Some diff_list)))))))"

definition compare_rds_parameters ::
  "rds_client \<Rightarrow> string \<Rightarrow> rds_client \<Rightarrow> string \<Rightarrow> bool \<Rightarrow> parameter list option prog" where
  "compare_rds_parameters source_rds_client_obj source_param_group dest_rds_client_obj dest_param_group
     return_list =
     bind_io (describe_db_parameter_groups source_rds_client_obj (Some source_param_group) None)
       (\<lambda>source_summary.
     bind_io (lift_io (first_group source_summary)) (\<lambda>source_group.
     bind_io (return_all_parameters_from_parameter_group source_rds_client_obj source_param_group)
       (\<lambda>source_parameters.
     bind_io (describe_db_parameter_groups dest_rds_client_obj (Some dest_param_group) None)
       (\<lambda>dest_summary.
     bind_io (lift_io (first_group dest_summary)) (\<lambda>dest_group.
     bind_io (return_all_parameters_from_parameter_group dest_rds_client_obj dest_param_group)
       (\<lambda>dest_parameters.
     bind_io (print_io (Comparing source_param_group dest_param_group)) (\<lambda>_.
     bind_io (print_io (NumberSource (length source_parameters))) (\<lambda>_.
     bind_io (print_io (NumberDest (length dest_parameters))) (\<lambda>_.
     bind_io (if DBParameterGroupFamily source_group \<noteq> DBParameterGroupFamily dest_group
              then bind_io (print_io FamilyMismatch) (\<lambda>_.
                   bind_io (print_io (SourceFamily (DBParameterGroupFamily source_group))) (\<lambda>_.
                   print_io (DestFamily (DBParameterGroupFamily dest_group))))
              else print_io (Family (DBParameterGroupFamily source_group))) (\<lambda>_.
     bind_io (print_io Blank) (\<lambda>_.
     bind_io (print_io Blank) (\<lambda>_.
     bind_io (print_io DiffLikeComparison) (\<lambda>_.
     bind_io (print_io (SourceGroupName source_param_group)) (\<lambda>_.
     bind_io (print_io (DestGroupName dest_param_group)) (\<lambda>_.
     compare_collections source_parameters dest_parameters return_list)))))))))))))))"

definition merge_rds_parameters ::
  "rds_client \<Rightarrow> string \<Rightarrow> rds_client \<Rightarrow> string \<Rightarrow> unit prog" where
  "merge_rds_parameters source_rds_client_obj source_param_group dest_rds_client_obj dest_param_group =
     bind_io (compare_rds_parameters source_rds_client_obj source_param_group
                dest_rds_client_obj dest_param_group True) (\<lambda>parameters_diff.
     bind_io (print_io (MergingDifferences source_param_group dest_param_group)) (\<lambda>_.
     (case parameters_diff of
        None \<Rightarrow> raise_io TypeError
      | Some parameters \<Rightarrow> post_parameters_to_group dest_rds_client_obj dest_param_group parameters)))"

section \<open>Startup\<close>

text \<open>
  The command line as the user gave it: the action, the two group names, and each region
  option when it was given. The environment maps variable names to values.
\<close>

datatype action = Compare | Copy | Diff | Merge

record command_line =
  action :: action
  source_param_group :: string
  source_region :: "string option"
  dest_param_group :: string
  dest_region :: "string option"

text \<open>Line 62, run when the module is loaded: \<^verbatim>\<open>environ['AWS_DEFAULT_REGION']\<close>.\<close>

definition default_source_region :: "(string \<rightharpoonup> string) \<Rightarrow> error + string" where
  "default_source_region environ =
     (case environ ''AWS_DEFAULT_REGION'' of
        None \<Rightarrow> Inl (KeyError (PyStr ''AWS_DEFAULT_REGION''))
      | Some region \<Rightarrow> Inr region)"

text \<open>
  \<^verbatim>\<open>boto3.client("rds", region_name=...)\<close> is library code. What it gives for a region
  name, a client or the error it raises for a name it refuses, is the parameter
  \<open>boto3_client\<close> of the program; it issues no remote call.

  The program up to the construction of the two clients: the module variables, the parsed
  arguments with their defaults, the source client, then the destination client.
\<close>

definition startup ::
  "(string \<Rightarrow> error + rds_client) \<Rightarrow> (string \<rightharpoonup> string) \<Rightarrow> command_line \<Rightarrow>
   error + (rds_client \<times> rds_client)" where
  "startup boto3_client environ cl =
     (case default_source_region environ of
        Inl e \<Rightarrow> Inl e
      | Inr default_region \<Rightarrow>
          (let args_source_region = (case source_region cl of None \<Rightarrow> default_region | Some r \<Rightarrow> r);
               args_dest_region = (case dest_region cl of None \<Rightarrow> args_source_region | Some r \<Rightarrow> r)
           in (case boto3_client args_source_region of
                 Inl e \<Rightarrow> Inl e
               | Inr source_client \<Rightarrow>
                   (case boto3_client args_dest_region of
                      Inl e \<Rightarrow> Inl e
                    | Inr dest_client \<Rightarrow> Inr (source_client, dest_client)))))"

definition main ::
  "(string \<Rightarrow> error + rds_client) \<Rightarrow> (string \<rightharpoonup> string) \<Rightarrow> string list \<Rightarrow> command_line \<Rightarrow>
   unit prog" where
  "main boto3_client environ argv cl =
     bind_io (lift_io (startup boto3_client environ cl)) (\<lambda>(source_client, dest_client).
     (case action cl of
        Compare \<Rightarrow>
          bind_io (compare_rds_parameters source_client (source_param_group cl)
                     dest_client (dest_param_group cl) False) (\<lambda>_. return_io ())
      | Diff \<Rightarrow>
          bind_io (compare_rds_parameters source_client (source_param_group cl)
                     dest_client (dest_param_group cl) False) (\<lambda>_. return_io ())
      | Copy \<Rightarrow>
          copy_rds_parameters argv source_client (source_param_group cl)
            dest_client (dest_param_group cl)
      | Merge \<Rightarrow>
          merge_rds_parameters source_client (source_param_group cl)
            dest_client (dest_param_group cl)))"

section \<open>Notions used in the statements\<close>

text \<open>The records a response carries.\<close>

definition records_of :: "response \<Rightarrow> parameter list" where
  "records_of r = (case Parameters r of None \<Rightarrow> [] | Some ps \<Rightarrow> ps)"

text \<open>The lines the batch applier prints for a chunk whose records all carry a value.\<close>

definition assignment_lines :: "parameter list \<Rightarrow> printed list" where
  "assignment_lines ps =
     map (\<lambda>p. Assignment (PyStr (ParameterName p))
                 (PyStr (case ParameterValue p of None \<Rightarrow> [] | Some v \<Rightarrow> v))) ps"

text \<open>The calls that change something on the service.\<close>

fun is_mutation :: "request \<Rightarrow> bool" where
  "is_mutation (CreateDBParameterGroup name family description tags) = True"
| "is_mutation (ModifyDBParameterGroup name parameters) = True"
| "is_mutation rq = False"

text \<open>Between two worlds, calls were only added, and none of them is a mutation.\<close>

definition only_reads :: "world \<Rightarrow> world \<Rightarrow> bool" where
  "only_reads w w' =
     (\<exists>new. calls w' = calls w @ new \<and> list_all (\<lambda>cr. \<not> is_mutation (snd cr)) new)"

text \<open>
  The entries of the source mapping that the comparison reports: those for which the
  destination mapping holds no equal record under the same name (source-only or changed);
  the lines printed for such an entry; the entries of the destination mapping whose name
  the source mapping lacks, and the lines printed for one.
\<close>

definition differing ::
  "(pyval, parameter) dict \<Rightarrow> (pyval, parameter) dict \<Rightarrow> (pyval \<times> parameter) list" where
  "differing sp dp = filter (\<lambda>ks. map_of dp (fst ks) \<noteq> Some (snd ks)) sp"

definition source_lines :: "(pyval, parameter) dict \<Rightarrow> pyval \<times> parameter \<Rightarrow> printed list" where
  "source_lines dp ks =
     (case map_of dp (fst ks) of
        None \<Rightarrow> [NameLine (fst ks), Less (snd ks)]
      | Some d \<Rightarrow> [NameLine (fst ks), Less (snd ks), Greater d])"

definition dest_only ::
  "(pyval, parameter) dict \<Rightarrow> (pyval, parameter) dict \<Rightarrow> (pyval \<times> parameter) list" where
  "dest_only sp dp = filter (\<lambda>kd. \<not> dict_contains sp (fst kd)) dp"

definition dest_lines :: "pyval \<times> parameter \<Rightarrow> printed list" where
  "dest_lines kd = [NameLine (fst kd), Greater (snd kd)]"

text \<open>
  A program run from a world ends well for a postcondition when it does not fail on a
  missing \<^verbatim>\<open>ParameterValue\<close> key and, if it returns, its result and final world satisfy
  the postcondition.
\<close>

definition ends_well :: "'a prog \<Rightarrow> world \<Rightarrow> ('a \<Rightarrow> world \<Rightarrow> bool) \<Rightarrow> bool" where
  "ends_well m w Q =
     (case m w of
        (Inl e, w') \<Rightarrow> e \<noteq> KeyError (PyStr ''ParameterValue'')
      | (Inr x, w') \<Rightarrow> Q x w')"

definition all_valued :: "parameter list \<Rightarrow> bool" where
  "all_valued ps = list_all (\<lambda>p. ParameterValue p \<noteq> None) ps"

section \<open>Example data\<close>

text \<open>
  Parameters: \<open>a\<close>, \<open>b\<close> and \<open>c\<close> are modifiable with a value, not modifiable, and
  modifiable without a value; \<open>x\<close>, \<open>y\<close> and \<open>z\<close> have the values 1, 2 and 4, and \<open>y'\<close>
  is \<open>y\<close> with the value 3.
\<close>

abbreviation par_a :: parameter where
  "par_a \<equiv> \<lparr>ParameterName = ''a'', ParameterValue = Some ''5'', IsModifiable = True,
     Metadata = fmempty\<rparr>"

abbreviation par_b :: parameter where
  "par_b \<equiv> \<lparr>ParameterName = ''b'', ParameterValue = Some ''6'', IsModifiable = False,
     Metadata = fmempty\<rparr>"

abbreviation par_c :: parameter where
  "par_c \<equiv> \<lparr>ParameterName = ''c'', ParameterValue = None, IsModifiable = True,
     Metadata = fmempty\<rparr>"

abbreviation par_x :: parameter where
  "par_x \<equiv> \<lparr>ParameterName = ''x'', ParameterValue = Some ''1'', IsModifiable = True,
     Metadata = fmempty\<rparr>"

abbreviation par_y :: parameter where
  "par_y \<equiv> \<lparr>ParameterName = ''y'', ParameterValue = Some ''2'', IsModifiable = True,
     Metadata = fmempty\<rparr>"

abbreviation par_y' :: parameter where
  "par_y' \<equiv> \<lparr>ParameterName = ''y'', ParameterValue = Some ''3'', IsModifiable = True,
     Metadata = fmempty\<rparr>"

abbreviation par_z :: parameter where
  "par_z \<equiv> \<lparr>ParameterName = ''z'', ParameterValue = Some ''4'', IsModifiable = True,
     Metadata = fmempty\<rparr>"

text \<open>
  Two parameter groups; a response with one page of parameters or of groups; the response
  to a call that changes something; a world in which nothing has happened yet.
\<close>

abbreviation group_g :: db_parameter_group where
  "group_g \<equiv> \<lparr>DBParameterGroupName = ''g'', DBParameterGroupFamily = ''mysql8.0'',
     Description = ''source'', DBParameterGroupArn = ''arn:g''\<rparr>"

abbreviation group_h :: db_parameter_group where
  "group_h \<equiv> \<lparr>DBParameterGroupName = ''h'', DBParameterGroupFamily = ''mysql8.0'',
     Description = ''destination'', DBParameterGroupArn = ''arn:h''\<rparr>"

abbreviation page :: "parameter list \<Rightarrow> string option \<Rightarrow> response" where
  "page ps m \<equiv> \<lparr>DBParameterGroups = None, Parameters = Some ps, Marker = m\<rparr>"

abbreviation groups_page :: "db_parameter_group list \<Rightarrow> string option \<Rightarrow> response" where
  "groups_page gs m \<equiv> \<lparr>DBParameterGroups = Some gs, Parameters = None, Marker = m\<rparr>"

abbreviation ack :: response where
  "ack \<equiv> \<lparr>DBParameterGroups = None, Parameters = None, Marker = None\<rparr>"

abbreviation fresh :: "(string + response) list \<Rightarrow> world" where
  "fresh rs \<equiv> \<lparr>responses = rs, calls = [], stdout = []\<rparr>"

section \<open>Reindexing a fetched collection\<close>

text \<open>
  C1. The claim: a collection with two records of the same name makes the reindexing step
  fail, and a collection with unique names gives a mapping as long as the input. The loop
  tests the field name \<^verbatim>\<open>key\<close> against the keys stored so far, not the record's own
  name. Evaluated on two records that are both named \<^verbatim>\<open>max_connections\<close>, it returns a
  mapping with one entry (the second record) and no error; on two records with the unique
  names \<^verbatim>\<open>ParameterName\<close> and \<^verbatim>\<open>max_connections\<close>, it fails.
\<close>

theorem change_list_to_dict_duplicate_names:
  "change_list_to_dict
     [\<lparr>ParameterName = ''max_connections'', ParameterValue = Some ''100'',
        IsModifiable = True, Metadata = fmempty\<rparr>,
      \<lparr>ParameterName = ''max_connections'', ParameterValue = Some ''200'',
        IsModifiable = True, Metadata = fmempty\<rparr>] ''ParameterName''
   = Inr [(PyStr ''max_connections'',
           \<lparr>ParameterName = ''max_connections'', ParameterValue = Some ''200'',
             IsModifiable = True, Metadata = fmempty\<rparr>)]
   \<and> change_list_to_dict
     [\<lparr>ParameterName = ''ParameterName'', ParameterValue = Some ''1'',
        IsModifiable = True, Metadata = fmempty\<rparr>,
      \<lparr>ParameterName = ''max_connections'', ParameterValue = Some ''200'',
        IsModifiable = True, Metadata = fmempty\<rparr>] ''ParameterName''
   = Inl (Exception ''This key name is not unique.'')"
  by (simp add: change_list_to_dict_def dict_contains_def getitem_def)

section \<open>Chunking\<close>

lemma slice_forward:
  "0 \<le> start \<Longrightarrow> 0 \<le> B \<Longrightarrow>
   slice L start (start + B) = take (nat B) (drop (nat start) L)"
  by (auto simp: slice_def slice_index_def Let_def min_def nat_add_distrib nat_diff_distrib)

lemma ceiling_step:
  fixes n b :: nat
  assumes "0 < n" "0 < b"
  shows "\<lceil>real n / real b\<rceil> = 1 + \<lceil>real (n - b) / real b\<rceil>"
proof (cases "b \<le> n")
  case True
  then have "real (n - b) / real b = real n / real b - 1"
    using assms by (simp add: of_nat_diff diff_divide_distrib)
  then show ?thesis by simp
next
  case False
  then have "0 < real n / real b" "real n / real b \<le> 1" using assms by simp_all
  then have "\<lceil>real n / real b\<rceil> = 1" by (intro ceiling_unique) simp_all
  then show ?thesis using False by simp
qed

text \<open>
  The loop from any position \<open>start\<close>: it ends, and what it yields from there on splits
  the rest of the sequence. Induction on the number of elements still to be yielded.
\<close>

lemma chunks_from_total:
  assumes B: "0 < B"
  shows "0 \<le> start \<Longrightarrow>
    \<exists>cs. chunks_from L B start acc = Some (acc @ cs) \<and> concat cs = drop (nat start) L
       \<and> (\<forall>c\<in>set cs. length c \<le> nat B)
       \<and> int (length cs) = \<lceil>real (length L - nat start) / real (nat B)\<rceil>"
proof (induction "length L - nat start" arbitrary: start acc rule: less_induct)
  case less
  show ?case
  proof (cases "start < int (length L)")
    case False
    then show ?thesis using less.prems B by (subst chunks_from.simps) simp
  next
    case True
    let ?s' = "start + B"
    let ?c = "slice L start ?s'"
    have "length L - nat ?s' < length L - nat start" using True B less.prems by linarith
    moreover have "0 \<le> ?s'" using B less.prems by simp
    ultimately obtain cs where cs:
      "chunks_from L B ?s' (acc @ [?c]) = Some ((acc @ [?c]) @ cs)"
      "concat cs = drop (nat ?s') L" "\<forall>c\<in>set cs. length c \<le> nat B"
      "int (length cs) = \<lceil>real (length L - nat ?s') / real (nat B)\<rceil>"
      using less.hyps[of ?s' "acc @ [?c]"] by blast
    have sl: "?c = take (nat B) (drop (nat start) L)"
      using B less.prems by (simp add: slice_forward)
    have step: "chunks_from L B start acc = Some (acc @ (?c # cs))"
      using True cs(1) by (subst chunks_from.simps) simp
    have cc: "concat (?c # cs) = drop (nat start) L"
      using cs(2) less.prems B
      by (simp add: sl nat_add_distrib add.commute[of "nat start"] flip: drop_drop)
    have len: "\<forall>c\<in>set (?c # cs). length c \<le> nat B"
      using cs(3) by (simp add: sl)
    have "length L - nat ?s' = (length L - nat start) - nat B"
      using less.prems B by (simp add: nat_add_distrib)
    moreover have "0 < length L - nat start" using True less.prems by linarith
    ultimately have cnt:
      "int (length (?c # cs)) = \<lceil>real (length L - nat start) / real (nat B)\<rceil>"
      using cs(4) B ceiling_step[of "length L - nat start" "nat B"] by simp
    show ?thesis using step cc len cnt by blast
  qed
qed

text \<open>
  C3. For every list \<open>L\<close> and every batch size \<open>B > 0\<close>, the chunking function returns a
  list of chunks whose concatenation, in order, is \<open>L\<close>; every chunk has at most \<open>B\<close>
  elements; and there are \<open>ceil(len(L) / B)\<close> chunks.
\<close>

theorem chunks_partition:
  assumes "0 < B"
  shows "\<exists>cs. chunks L B = Some cs \<and> concat cs = L
     \<and> (\<forall>c\<in>set cs. int (length c) \<le> B)
     \<and> int (length cs) = \<lceil>real (length L) / real_of_int B\<rceil>"
proof -
  obtain cs where cs: "chunks_from L B 0 [] = Some ([] @ cs)" "concat cs = drop (nat 0) L"
     "\<forall>c\<in>set cs. length c \<le> nat B"
     "int (length cs) = \<lceil>real (length L - nat 0) / real (nat B)\<rceil>"
    using chunks_from_total[OF assms, of 0 L "[]"] by blast
  have "real (nat B) = real_of_int B" using assms by simp
  moreover have "\<forall>c\<in>set cs. int (length c) \<le> B" using cs(3) assms by auto
  ultimately show ?thesis using cs by (simp add: chunks_def)
qed

theorem chunks_partition_witness:
  "(0::int) < 2 \<and> (\<exists>cs. chunks [1, 2, 3 :: nat] 2 = Some cs \<and> concat cs = [1, 2, 3]
      \<and> (\<forall>c\<in>set cs. int (length c) \<le> 2)
      \<and> int (length cs) = \<lceil>real (length [1, 2, 3 :: nat]) / real_of_int 2\<rceil>)"
  using chunks_partition[of 2 "[1, 2, 3 :: nat]"] by simp

section \<open>Programs: sequencing\<close>

lemma bind_io_return [simp]: "bind_io (return_io x) f w = f x w"
  by (simp add: bind_io_def return_io_def)

lemma bind_io_raise [simp]: "bind_io (raise_io e) f w = (Inl e, w)"
  by (simp add: bind_io_def raise_io_def)

lemma bind_io_lift_Inr [simp]: "bind_io (lift_io (Inr x)) f w = f x w"
  by (simp add: bind_io_def lift_io_def)

lemma bind_io_lift_Inl [simp]: "bind_io (lift_io (Inl e)) f w = (Inl e, w)"
  by (simp add: bind_io_def lift_io_def)

lemma bind_io_print [simp]:
  "bind_io (print_io l) f w = f () (w\<lparr>stdout := stdout w @ [l]\<rparr>)"
  by (simp add: bind_io_def print_io_def)

lemma bind_io_Inr: "m w = (Inr x, w') \<Longrightarrow> bind_io m f w = f x w'"
  by (simp add: bind_io_def)

lemma bind_io_Inl: "m w = (Inl e, w') \<Longrightarrow> bind_io m f w = (Inl e, w')"
  by (simp add: bind_io_def)

lemma remote_call_Inr:
  "responses w = Inr r # rs \<Longrightarrow>
   remote_call c rq w = (Inr r, w\<lparr>responses := rs, calls := calls w @ [(c, rq)]\<rparr>)"
  by (simp add: remote_call_def)

section \<open>Paginated retrieval of the parameters\<close>

lemma return_all_parameters_loop_pages:
  assumes "pages \<noteq> []" "responses w = map Inr pages @ rest"
    "\<forall>r\<in>set pages. Parameters r \<noteq> None"
    "\<forall>r\<in>set (butlast pages). Marker r \<noteq> None"
    "Marker (last pages) = None" "tok \<noteq> TokenFalse"
  shows "return_all_parameters_loop c g tok acc w =
    (Inr (acc @ concat (map records_of pages)),
     w\<lparr>responses := rest,
       calls := calls w @ map (\<lambda>m. (c, DescribeDBParameters g m))
                  (marker_of tok # map Marker (butlast pages))\<rparr>)"
  using assms
proof (induction pages arbitrary: w tok acc)
  case Nil
  then show ?case by simp
next
  case (Cons r pages)
  obtain ps where ps: "Parameters r = Some ps" using Cons.prems(3) by auto
  have rp: "records_of r = ps" by (simp add: records_of_def ps)
  let ?w' = "w\<lparr>responses := map Inr pages @ rest,
       calls := calls w @ [(c, DescribeDBParameters g (marker_of tok))]\<rparr>"
  have call: "describe_db_parameters c g (marker_of tok) w = (Inr r, ?w')"
    using Cons.prems(2) by (simp add: describe_db_parameters_def remote_call_Inr)
  show ?case
  proof (cases "pages = []")
    case True
    then have "Marker r = None" using Cons.prems(5) by simp
    then show ?thesis using True call ps rp Cons.prems(6)
      by (simp add: return_all_parameters_loop.simps[of c g tok acc w]
           return_all_parameters_loop.simps[of c g TokenFalse] next_token_def)
  next
    case False
    then obtain m where m: "Marker r = Some m" using Cons.prems(4) by auto
    have IH: "return_all_parameters_loop c g (TokenMarker m) (acc @ ps) ?w' =
      (Inr ((acc @ ps) @ concat (map records_of pages)),
       ?w'\<lparr>responses := rest,
         calls := calls ?w' @ map (\<lambda>m. (c, DescribeDBParameters g m))
            (marker_of (TokenMarker m) # map Marker (butlast pages))\<rparr>)"
      using False Cons.prems by (intro Cons.IH) auto
    show ?thesis using False call ps rp m IH Cons.prems(6)
      by (simp add: return_all_parameters_loop.simps[of c g tok acc w] next_token_def)
  qed
qed

text \<open>
  C7. For every sequence of responses to the parameter fetcher in which every response
  carries records, every response but the last carries a cursor and the last one carries
  none, the fetcher returns the concatenation of the records of all responses, in response
  order; its first request carries no cursor, and each later request the cursor of the
  response before it.
\<close>

theorem fetcher_follows_cursors:
  assumes "pages \<noteq> []" "responses w = map Inr pages @ rest"
    "\<forall>r\<in>set pages. Parameters r \<noteq> None"
    "\<forall>r\<in>set (butlast pages). Marker r \<noteq> None"
    "Marker (last pages) = None"
  shows "return_all_parameters_from_parameter_group c g w =
    (Inr (concat (map records_of pages)),
     w\<lparr>responses := rest,
       calls := calls w @ map (\<lambda>m. (c, DescribeDBParameters g m))
                  (None # map Marker (butlast pages))\<rparr>)"
  using return_all_parameters_loop_pages[OF assms, of TokenNone c g "[]"]
  by (simp add: return_all_parameters_from_parameter_group_def)

theorem fetcher_follows_cursors_witness:
  "return_all_parameters_from_parameter_group (Client ''us-east-1'') ''g''
     (fresh [Inr (page [par_a] (Some ''t1'')), Inr (page [par_b, par_c] None)])
   = (Inr [par_a, par_b, par_c],
      \<lparr>responses = [],
       calls = [(Client ''us-east-1'', DescribeDBParameters ''g'' None),
                (Client ''us-east-1'', DescribeDBParameters ''g'' (Some ''t1''))],
       stdout = []\<rparr>)"
  using fetcher_follows_cursors[of "[page [par_a] (Some ''t1''), page [par_b, par_c] None]"
          "fresh [Inr (page [par_a] (Some ''t1'')), Inr (page [par_b, par_c] None)]" "[]"
          "Client ''us-east-1''" "''g''"]
  by (simp add: records_of_def)

section \<open>The modifiable-filter\<close>

lemma modifiable_with_value_filter:
  "modifiable_with_value ps acc =
   acc @ filter (\<lambda>p. IsModifiable p \<and> ParameterValue p \<noteq> None) ps"
  by (induction ps arbitrary: acc)
     (auto simp: append_if_value_present_def has_key_def getitem_def split: option.splits)

text \<open>
  C8. For every collection that the fetch returns, the modifiable-filter returns exactly
  its records whose modifiable flag is true and which carry a value, in the input order.
\<close>

theorem modifiable_filter_subsequence:
  assumes "return_all_parameters_from_parameter_group c g w = (Inr all_parameters, w')"
  shows "return_all_modifiable_parameters_with_value_from_parameter_group c g w =
    (Inr (filter (\<lambda>p. IsModifiable p \<and> ParameterValue p \<noteq> None) all_parameters), w')"
  using assms
  by (simp add: return_all_modifiable_parameters_with_value_from_parameter_group_def
        bind_io_Inr modifiable_with_value_filter return_io_def)

theorem modifiable_filter_subsequence_witness:
  "return_all_parameters_from_parameter_group (Client ''us-east-1'') ''g''
     (fresh [Inr (page [par_a, par_b, par_c] None)])
   = (Inr [par_a, par_b, par_c],
      \<lparr>responses = [], calls = [(Client ''us-east-1'', DescribeDBParameters ''g'' None)],
       stdout = []\<rparr>)
   \<and> return_all_modifiable_parameters_with_value_from_parameter_group (Client ''us-east-1'') ''g''
     (fresh [Inr (page [par_a, par_b, par_c] None)])
   = (Inr [par_a],
      \<lparr>responses = [], calls = [(Client ''us-east-1'', DescribeDBParameters ''g'' None)],
       stdout = []\<rparr>)"
proof -
  have h: "return_all_parameters_from_parameter_group (Client ''us-east-1'') ''g''
     (fresh [Inr (page [par_a, par_b, par_c] None)])
   = (Inr [par_a, par_b, par_c],
      \<lparr>responses = [], calls = [(Client ''us-east-1'', DescribeDBParameters ''g'' None)],
       stdout = []\<rparr>)"
    using return_all_parameters_loop_pages[of "[page [par_a, par_b, par_c] None]"
          "fresh [Inr (page [par_a, par_b, par_c] None)]" "[]" TokenNone
          "Client ''us-east-1''" "''g''" "[]"]
    by (simp add: records_of_def return_all_parameters_from_parameter_group_def)
  show ?thesis using h modifiable_filter_subsequence[OF h] by simp
qed

section \<open>The batch applier\<close>

lemma chunks_of_twenty:
  "\<exists>cs. chunks L 20 = Some cs \<and> concat cs = L \<and> (\<forall>c\<in>set cs. length c \<le> 20)
     \<and> int (length cs) = \<lceil>real (length L) / 20\<rceil>"
  using chunks_from_total[of 20 0 L "[]"] by (simp add: chunks_def)

lemma print_parameters_valued:
  "\<forall>p\<in>set ps. ParameterValue p \<noteq> None \<Longrightarrow>
   print_parameters ps w = (Inr (), w\<lparr>stdout := stdout w @ assignment_lines ps\<rparr>)"
proof (induction ps arbitrary: w)
  case Nil
  then show ?case by (simp add: return_io_def assignment_lines_def)
next
  case (Cons p ps)
  then obtain v where v: "ParameterValue p = Some v" by auto
  have "print_parameters ps (w\<lparr>stdout := stdout w @ [Assignment (PyStr (ParameterName p)) (PyStr v)]\<rparr>)
      = (Inr (), w\<lparr>stdout := stdout w @ assignment_lines (p # ps)\<rparr>)"
    using Cons by (simp add: assignment_lines_def v)
  then show ?case by (simp add: getitem_def v)
qed

lemma print_parameters_no_value:
  "ParameterValue p = None \<Longrightarrow>
   print_parameters (p # ps) w = (Inl (KeyError (PyStr ''ParameterValue'')), w)"
  by (simp add: getitem_def)

lemma post_chunks_acked:
  assumes "\<forall>ch\<in>set cs. \<forall>p\<in>set ch. ParameterValue p \<noteq> None"
    "responses w = map Inr acks @ rest" "length acks = length cs"
  shows "post_chunks c g cs w =
    (Inr (), w\<lparr>responses := rest,
               calls := calls w @ map (\<lambda>ch. (c, ModifyDBParameterGroup g ch)) cs,
               stdout := stdout w @ concat (map assignment_lines cs)\<rparr>)"
  using assms
proof (induction cs arbitrary: w acks)
  case Nil
  then show ?case by (simp add: return_io_def)
next
  case (Cons ch cs)
  then obtain a acks' where acks: "acks = a # acks'" by (cases acks) auto
  let ?w1 = "w\<lparr>responses := map Inr acks' @ rest,
                calls := calls w @ [(c, ModifyDBParameterGroup g ch)]\<rparr>"
  have m: "modify_db_parameter_group c g ch w = (Inr a, ?w1)"
    using Cons.prems(2) acks by (simp add: modify_db_parameter_group_def remote_call_Inr)
  have p: "print_parameters ch ?w1 = (Inr (), ?w1\<lparr>stdout := stdout ?w1 @ assignment_lines ch\<rparr>)"
    using Cons.prems(1) by (intro print_parameters_valued) simp
  have "post_chunks c g cs (?w1\<lparr>stdout := stdout ?w1 @ assignment_lines ch\<rparr>) =
    (Inr (), w\<lparr>responses := rest,
               calls := calls w @ map (\<lambda>ch. (c, ModifyDBParameterGroup g ch)) (ch # cs),
               stdout := stdout w @ concat (map assignment_lines (ch # cs))\<rparr>)"
    using Cons.prems acks
    by (subst Cons.IH[of _ acks']) simp_all
  then show ?case
    by (simp add: bind_io_Inr[where m = "modify_db_parameter_group c g ch", OF m]
          bind_io_Inr[where m = "print_parameters ch", OF p])
qed

text \<open>
  C5, as the code has it. For every parameter list whose records all carry a value, when
  the service accepts the modify calls, the batch applier returns after \<open>ceil(n / 20)\<close>
  modify calls, issued in list order, each carrying at most 20 records, whose payloads
  concatenated are the input list; for the empty list it issues no call and changes
  nothing.
\<close>

theorem post_parameters_to_group_batches:
  assumes "\<forall>p\<in>set parameters. ParameterValue p \<noteq> None"
    and "responses w = map Inr acks @ rest"
    and "int (length acks) = \<lceil>real (length parameters) / 20\<rceil>"
  shows "\<exists>cs w'. post_parameters_to_group c g parameters w = (Inr (), w')
     \<and> calls w' = calls w @ map (\<lambda>ch. (c, ModifyDBParameterGroup g ch)) cs
     \<and> responses w' = rest
     \<and> concat cs = parameters \<and> (\<forall>ch\<in>set cs. length ch \<le> 20)
     \<and> int (length cs) = \<lceil>real (length parameters) / 20\<rceil>
     \<and> (parameters = [] \<longrightarrow> w' = w)"
proof (cases "parameters = []")
  case True
  then have "acks = []" using assms(3) by simp
  then have "responses w = rest" using assms(2) by simp
  then show ?thesis using True
    by (intro exI[of _ "[]"] exI[of _ w]) (simp add: post_parameters_to_group_def return_io_def)
next
  case False
  obtain cs where cs: "chunks parameters 20 = Some cs" "concat cs = parameters"
    "\<forall>c\<in>set cs. length c \<le> 20" "int (length cs) = \<lceil>real (length parameters) / 20\<rceil>"
    using chunks_of_twenty[of parameters] by blast
  have vals: "\<forall>ch\<in>set cs. \<forall>p\<in>set ch. ParameterValue p \<noteq> None"
    using assms(1) cs(2) by auto
  have len: "length acks = length cs" using assms(3) cs(4) by simp
  let ?w' = "w\<lparr>responses := rest,
               calls := calls w @ map (\<lambda>ch. (c, ModifyDBParameterGroup g ch)) cs,
               stdout := stdout w @ concat (map assignment_lines cs)\<rparr>"
  have "post_parameters_to_group c g parameters w = (Inr (), ?w')"
    using False cs(1) post_chunks_acked[OF vals assms(2) len, of c g]
    by (simp add: post_parameters_to_group_def)
  then show ?thesis using cs False by (intro exI[of _ cs] exI[of _ ?w']) simp
qed

theorem post_parameters_to_group_batches_witness:
  "\<exists>cs w'. post_parameters_to_group (Client ''us-east-1'') ''g'' [par_a, par_b]
               (fresh [Inr ack]) = (Inr (), w')
     \<and> calls w' = map (\<lambda>ch. (Client ''us-east-1'', ModifyDBParameterGroup ''g'' ch)) cs
     \<and> responses w' = []
     \<and> concat cs = [par_a, par_b] \<and> int (length cs) = 1"
proof -
  have c: "\<lceil>real (length [par_a, par_b]) / 20\<rceil> = (1::int)"
    by (simp add: ceiling_eq_iff)
  show ?thesis
    using post_parameters_to_group_batches[of "[par_a, par_b]" "fresh [Inr ack]" "[ack]" "[]"
            "Client ''us-east-1''" "''g''"]
    unfolding c by simp blast
qed

text \<open>
  The claim as stated fails on a list of 21 records whose first record carries no value:
  the applier issues the first of the two modify calls, then fails on the report of that
  record, and the second call is never issued.
\<close>

theorem post_parameters_to_group_counterexample:
  "fst (post_parameters_to_group (Client ''us-east-1'') ''g'' (par_c # replicate 20 par_a)
         (fresh [Inr ack, Inr ack])) = Inl (KeyError (PyStr ''ParameterValue''))
   \<and> calls (snd (post_parameters_to_group (Client ''us-east-1'') ''g''
         (par_c # replicate 20 par_a) (fresh [Inr ack, Inr ack])))
     = [(Client ''us-east-1'', ModifyDBParameterGroup ''g'' (par_c # replicate 19 par_a))]
   \<and> \<lceil>real (length (par_c # replicate 20 par_a)) / 20\<rceil> = (2::int)"
proof -
  have ch: "chunks (par_c # replicate 20 par_a) 20
      = Some [par_c # replicate 19 par_a, [par_a]]"
    by (simp add: chunks_def chunks_from.simps slice_def slice_index_def)
  have c: "\<lceil>real (length (par_c # replicate 20 par_a)) / 20\<rceil> = (2::int)"
    by (simp add: ceiling_eq_iff)
  show ?thesis
    by (simp add: c post_parameters_to_group_def ch modify_db_parameter_group_def
          remote_call_def bind_io_def lift_io_def getitem_def)
qed

section \<open>Startup\<close>

text \<open>
  With the variable unset the program fails when the module is loaded, whatever the
  command line gives and whatever the client construction would do, and no remote call is
  issued. With the variable set, the regions are the ones given or else the defaults, and
  startup succeeds or fails as the construction of the two clients does.
\<close>

lemma startup_without_default_region:
  assumes "environ ''AWS_DEFAULT_REGION'' = None"
  shows "startup boto3_client environ cl = Inl (KeyError (PyStr ''AWS_DEFAULT_REGION''))"
    and "main boto3_client environ argv cl w = (Inl (KeyError (PyStr ''AWS_DEFAULT_REGION'')), w)"
  using assms by (simp_all add: startup_def main_def default_source_region_def)

lemma startup_with_default_region:
  assumes "environ ''AWS_DEFAULT_REGION'' = Some region"
  shows "startup boto3_client environ cl =
     (case boto3_client (case source_region cl of None \<Rightarrow> region | Some r \<Rightarrow> r) of
        Inl e \<Rightarrow> Inl e
      | Inr source_client \<Rightarrow>
          (case boto3_client
                  (case dest_region cl of
                     None \<Rightarrow> (case source_region cl of None \<Rightarrow> region | Some r \<Rightarrow> r)
                   | Some r \<Rightarrow> r) of
             Inl e \<Rightarrow> Inl e
           | Inr dest_client \<Rightarrow> Inr (source_client, dest_client)))"
  using assms by (simp add: startup_def default_source_region_def Let_def)

text \<open>
  C9. The claim: startup fails exactly when no source region is given and no default
  region is set, and succeeds when a source region is given even if the default is unset.
  The program declares the variable \<^verbatim>\<open>AWS_DEFAULT_REGION\<close> as the default of the optional
  source region, but line 62 reads it with \<^verbatim>\<open>environ[...]\<close> when the module is loaded,
  before the arguments are parsed. Evaluated with the variable unset and the source region
  \<^verbatim>\<open>us-west-2\<close> given, startup fails with the \<^verbatim>\<open>KeyError\<close> of that line, for every
  behaviour of the client construction, and the program ends without a remote call.
\<close>

theorem startup_fails_with_source_region_given:
  "startup boto3_client Map.empty
     \<lparr>action = Compare, source_param_group = ''g'', source_region = Some ''us-west-2'',
       dest_param_group = ''h'', dest_region = None\<rparr>
   = Inl (KeyError (PyStr ''AWS_DEFAULT_REGION''))
   \<and> main boto3_client Map.empty
       [''rds_param_group_util.py'', ''-a'', ''compare'', ''-p'', ''g'', ''-s'', ''us-west-2'',
        ''-d'', ''h'']
       \<lparr>action = Compare, source_param_group = ''g'', source_region = Some ''us-west-2'',
         dest_param_group = ''h'', dest_region = None\<rparr> (fresh [])
     = (Inl (KeyError (PyStr ''AWS_DEFAULT_REGION'')), fresh [])"
  by (simp add: startup_def main_def default_source_region_def)

section \<open>The copy workflow\<close>

lemma only_reads_refl [simp]: "only_reads w w"
  by (simp add: only_reads_def)

lemma only_reads_trans: "only_reads w w1 \<Longrightarrow> only_reads w1 w2 \<Longrightarrow> only_reads w w2"
  by (auto simp: only_reads_def)

lemma remote_call_only_reads:
  "remote_call c rq w = (r, w') \<Longrightarrow> \<not> is_mutation rq \<Longrightarrow> only_reads w w'"
  by (auto simp: remote_call_def only_reads_def split: list.splits sum.splits)

lemma return_all_parameters_loop_only_reads:
  "return_all_parameters_loop c g tok acc w = (r, w') \<Longrightarrow> only_reads w w'"
proof (induction c g tok acc w rule: return_all_parameters_loop.induct)
  case (1 c g tok acc w)
  show ?case
  proof (cases "tok = TokenFalse")
    case True
    then show ?thesis using "1.prems" by (simp add: return_all_parameters_loop.simps)
  next
    case False
    obtain x w1 where call: "describe_db_parameters c g (marker_of tok) w = (x, w1)"
      by (cases "describe_db_parameters c g (marker_of tok) w")
    have r1: "only_reads w w1"
      using call by (auto simp: describe_db_parameters_def intro: remote_call_only_reads)
    show ?thesis
    proof (cases x)
      case (Inl e)
      then show ?thesis using "1.prems" False call r1
        by (simp add: return_all_parameters_loop.simps[of c g tok acc w])
    next
      case (Inr chunk)
      show ?thesis
      proof (cases "Parameters chunk")
        case None
        then show ?thesis using "1.prems" False call r1 Inr
          by (simp add: return_all_parameters_loop.simps[of c g tok acc w])
      next
        case (Some ps)
        have "return_all_parameters_loop c g (next_token chunk) (acc @ ps) w1 = (r, w')"
          using "1.prems" False call Inr Some
          by (simp add: return_all_parameters_loop.simps[of c g tok acc w])
        then have "only_reads w1 w'"
          using "1.IH"[OF False call[symmetric] _ Some] Inr by simp
        then show ?thesis using r1 only_reads_trans by blast
      qed
    qed
  qed
qed

lemma return_parameter_groups_loop_only_reads:
  "return_parameter_groups_loop c tok acc w = (r, w') \<Longrightarrow> only_reads w w'"
proof (induction c tok acc w rule: return_parameter_groups_loop.induct)
  case (1 c tok acc w)
  show ?case
  proof (cases "tok = TokenFalse")
    case True
    then show ?thesis using "1.prems" by (simp add: return_parameter_groups_loop.simps)
  next
    case False
    obtain x w1 where call: "describe_db_parameter_groups c None (marker_of tok) w = (x, w1)"
      by (cases "describe_db_parameter_groups c None (marker_of tok) w")
    have r1: "only_reads w w1"
      using call by (auto simp: describe_db_parameter_groups_def intro: remote_call_only_reads)
    show ?thesis
    proof (cases x)
      case (Inl e)
      then show ?thesis using "1.prems" False call r1
        by (simp add: return_parameter_groups_loop.simps[of c tok acc w])
    next
      case (Inr chunk)
      show ?thesis
      proof (cases "DBParameterGroups chunk")
        case None
        then show ?thesis using "1.prems" False call r1 Inr
          by (simp add: return_parameter_groups_loop.simps[of c tok acc w])
      next
        case (Some gs)
        have "return_parameter_groups_loop c (next_token chunk)
                (acc @ map DBParameterGroupName gs) w1 = (r, w')"
          using "1.prems" False call Inr Some
          by (simp add: return_parameter_groups_loop.simps[of c tok acc w])
        then have "only_reads w1 w'"
          using "1.IH"[OF False call[symmetric] _ Some] Inr by simp
        then show ?thesis using r1 only_reads_trans by blast
      qed
    qed
  qed
qed

lemma modifiable_fetch_only_reads:
  "return_all_modifiable_parameters_with_value_from_parameter_group c g w = (r, w') \<Longrightarrow>
   only_reads w w'"
  by (auto simp: return_all_modifiable_parameters_with_value_from_parameter_group_def
        bind_io_def return_io_def return_all_parameters_from_parameter_group_def
      split: prod.splits sum.splits dest: return_all_parameters_loop_only_reads)

text \<open>
  C6. For every Copy run in which the listing of the destination region holds the
  destination group name, the workflow fails with the \<^verbatim>\<open>ValueError\<close> that says the group
  already exists, and every call issued up to then is a describe call: no create-group
  call and no modify-parameters call.
\<close>

theorem copy_refuses_existing_destination:
  assumes "describe_db_parameter_groups sc (Some sg) None w = (Inr source_summary, w1)"
    and "first_group source_summary = Inr source_group"
    and "return_all_modifiable_parameters_with_value_from_parameter_group sc sg w1
           = (Inr source_parameters, w2)"
    and "return_parameter_groups dc w2 = (Inr groups_in_dest_region, w3)"
    and "dg \<in> set groups_in_dest_region"
  shows "copy_rds_parameters argv sc sg dc dg w =
           (Inl (ValueError (''This group ('' @ dg @ '') already exists in region.'')), w3)
         \<and> only_reads w w3"
proof -
  have "only_reads w w1"
    using assms(1) by (auto simp: describe_db_parameter_groups_def intro: remote_call_only_reads)
  moreover have "only_reads w1 w2" using assms(3) by (rule modifiable_fetch_only_reads)
  moreover have "only_reads w2 w3"
    using assms(4) by (auto simp: return_parameter_groups_def
                         dest: return_parameter_groups_loop_only_reads)
  ultimately have "only_reads w w3" using only_reads_trans by blast
  moreover have "copy_rds_parameters argv sc sg dc dg w =
           (Inl (ValueError (''This group ('' @ dg @ '') already exists in region.'')), w3)"
    using assms unfolding copy_rds_parameters_def
    by (simp add: bind_io_def raise_io_def lift_io_def)
  ultimately show ?thesis by simp
qed

theorem copy_refuses_existing_destination_witness:
  "copy_rds_parameters [''rds_param_group_util.py'', ''-a'', ''copy'']
      (Client ''us-east-1'') ''g'' (Client ''us-west-2'') ''h''
      (fresh [Inr (groups_page [group_g] None), Inr (page [par_a, par_b, par_c] None),
              Inr (groups_page [group_h] None), Inr ack, Inr ack])
   = (Inl (ValueError ''This group (h) already exists in region.''),
      \<lparr>responses = [Inr ack, Inr ack],
       calls = [(Client ''us-east-1'', DescribeDBParameterGroups (Some ''g'') None),
                (Client ''us-east-1'', DescribeDBParameters ''g'' None),
                (Client ''us-west-2'', DescribeDBParameterGroups None None)],
       stdout = []\<rparr>)
   \<and> only_reads
      (fresh [Inr (groups_page [group_g] None), Inr (page [par_a, par_b, par_c] None),
              Inr (groups_page [group_h] None), Inr ack, Inr ack])
      \<lparr>responses = [Inr ack, Inr ack],
       calls = [(Client ''us-east-1'', DescribeDBParameterGroups (Some ''g'') None),
                (Client ''us-east-1'', DescribeDBParameters ''g'' None),
                (Client ''us-west-2'', DescribeDBParameterGroups None None)],
       stdout = []\<rparr>"
proof -
  let ?w = "fresh [Inr (groups_page [group_g] None), Inr (page [par_a, par_b, par_c] None),
              Inr (groups_page [group_h] None), Inr ack, Inr ack]"
  let ?w1 = "\<lparr>responses = [Inr (page [par_a, par_b, par_c] None),
              Inr (groups_page [group_h] None), Inr ack, Inr ack],
       calls = [(Client ''us-east-1'', DescribeDBParameterGroups (Some ''g'') None)],
       stdout = []\<rparr>"
  let ?w2 = "\<lparr>responses = [Inr (groups_page [group_h] None), Inr ack, Inr ack],
       calls = [(Client ''us-east-1'', DescribeDBParameterGroups (Some ''g'') None),
                (Client ''us-east-1'', DescribeDBParameters ''g'' None)],
       stdout = []\<rparr>"
  let ?w3 = "\<lparr>responses = [Inr ack, Inr ack],
       calls = [(Client ''us-east-1'', DescribeDBParameterGroups (Some ''g'') None),
                (Client ''us-east-1'', DescribeDBParameters ''g'' None),
                (Client ''us-west-2'', DescribeDBParameterGroups None None)],
       stdout = []\<rparr>"
  have h1: "describe_db_parameter_groups (Client ''us-east-1'') (Some ''g'') None ?w
      = (Inr (groups_page [group_g] None), ?w1)"
    by (simp add: describe_db_parameter_groups_def remote_call_def)
  have h2: "first_group (groups_page [group_g] None) = Inr group_g"
    by (simp add: first_group_def)
  have h3: "return_all_modifiable_parameters_with_value_from_parameter_group
      (Client ''us-east-1'') ''g'' ?w1 = (Inr [par_a], ?w2)"
    by (simp add: return_all_modifiable_parameters_with_value_from_parameter_group_def
          return_all_parameters_from_parameter_group_def return_all_parameters_loop.simps
          describe_db_parameters_def remote_call_def next_token_def bind_io_def return_io_def
          append_if_value_present_def has_key_def getitem_def)
  have h4: "return_parameter_groups (Client ''us-west-2'') ?w2 = (Inr [''h''], ?w3)"
    by (simp add: return_parameter_groups_def return_parameter_groups_loop.simps
          describe_db_parameter_groups_def remote_call_def next_token_def)
  have h5: "''h'' \<in> set [''h'']" by simp
  show ?thesis
    using copy_refuses_existing_destination[OF h1 h2 h3 h4 h5,
            of "[''rds_param_group_util.py'', ''-a'', ''copy'']"]
    by simp
qed

section \<open>Reindexed collections\<close>

lemma dict_contains_map_of: "dict_contains d k \<longleftrightarrow> map_of d k \<noteq> None"
  by (simp add: dict_contains_def map_of_eq_None_iff)

lemma map_fst_dict_setitem:
  "map fst (dict_setitem d k v) = (if k \<in> set (map fst d) then map fst d else map fst d @ [k])"
  by (induction d) (fastforce simp: image_iff)+

lemma keys_dict_setitem: "fst ` set (dict_setitem d k v) = insert k (fst ` set d)"
proof -
  have "set (map fst (dict_setitem d k v)) = insert k (set (map fst d))"
    unfolding map_fst_dict_setitem by auto
  then show ?thesis by simp
qed

lemma set_dict_setitem: "set (dict_setitem d k v) \<subseteq> insert (k, v) (set d)"
  by (induction d) (auto split: if_splits)

lemma distinct_dict_setitem:
  "distinct (map fst d) \<Longrightarrow> distinct (map fst (dict_setitem d k v))"
  by (simp add: map_fst_dict_setitem)

lemma map_of_dict_delitem:
  "k' \<noteq> k \<Longrightarrow> map_of (dict_delitem d k) k' = map_of d k'"
  by (induction d) (auto simp: dict_delitem_def)

lemma change_list_to_dict_loop_name:
  assumes "change_list_to_dict_loop xs ''ParameterName'' d = Inr d'"
  shows "fst ` set d' = fst ` set d \<union> (\<lambda>p. PyStr (ParameterName p)) ` set xs"
    and "set d' \<subseteq> set d \<union> (\<lambda>p. (PyStr (ParameterName p), p)) ` set xs"
    and "distinct (map fst d) \<Longrightarrow> distinct (map fst d')"
  using assms
proof (induction xs arbitrary: d)
  case Nil
  { case 1 then show ?case by simp }
  { case 2 then show ?case by simp }
  { case 3 then show ?case by simp }
next
  case (Cons p xs)
  { case 1
    then have "change_list_to_dict_loop xs ''ParameterName''
                 (dict_setitem d (PyStr (ParameterName p)) p) = Inr d'"
      by (simp add: getitem_def split: if_splits)
    from Cons.IH(1)[OF this] show ?case by (auto simp: keys_dict_setitem) }
  { case 2
    then have "change_list_to_dict_loop xs ''ParameterName''
                 (dict_setitem d (PyStr (ParameterName p)) p) = Inr d'"
      by (simp add: getitem_def split: if_splits)
    from Cons.IH(2)[OF this] set_dict_setitem[of d "PyStr (ParameterName p)" p]
    show ?case by auto }
  { case 3
    then have "change_list_to_dict_loop xs ''ParameterName''
                 (dict_setitem d (PyStr (ParameterName p)) p) = Inr d'"
      by (simp add: getitem_def split: if_splits)
    from Cons.IH(3)[OF _ this] 3(1) show ?case by (simp add: distinct_dict_setitem) }
qed

lemma change_list_to_dict_name:
  assumes "change_list_to_dict xs ''ParameterName'' = Inr d"
  shows "fst ` set d = (\<lambda>p. PyStr (ParameterName p)) ` set xs"
    and "set d \<subseteq> (\<lambda>p. (PyStr (ParameterName p), p)) ` set xs"
    and "distinct (map fst d)"
  using change_list_to_dict_loop_name[of xs "[]" d] assms
  by (simp_all add: change_list_to_dict_def)

lemma change_list_to_dict_loop_error:
  "change_list_to_dict_loop xs ''ParameterName'' d = Inl e \<Longrightarrow>
   e = Exception ''This key name is not unique.''"
  by (induction xs arbitrary: d) (auto simp: getitem_def split: if_splits)

lemma change_list_to_dict_error:
  "change_list_to_dict xs ''ParameterName'' = Inl e \<Longrightarrow>
   e = Exception ''This key name is not unique.''"
  by (simp add: change_list_to_dict_def change_list_to_dict_loop_error)

text \<open>
  No test on the names at all: a collection in which no record is named like the key
  field is reindexed without error, whatever names repeat in it.
\<close>

lemma change_list_to_dict_loop_unchecked:
  "PyStr ''ParameterName'' \<notin> fst ` set d \<Longrightarrow> ''ParameterName'' \<notin> ParameterName ` set xs \<Longrightarrow>
   \<exists>d'. change_list_to_dict_loop xs ''ParameterName'' d = Inr d'"
proof (induction xs arbitrary: d)
  case Nil
  then show ?case by simp
next
  case (Cons p xs)
  have "PyStr ''ParameterName'' \<notin> fst ` set (dict_setitem d (PyStr (ParameterName p)) p)"
    using Cons.prems unfolding keys_dict_setitem by auto
  then have "\<exists>d'. change_list_to_dict_loop xs ''ParameterName''
                 (dict_setitem d (PyStr (ParameterName p)) p) = Inr d'"
    using Cons.prems(2) by (intro Cons.IH) auto
  then show ?case using Cons.prems(1) by (simp add: dict_contains_def getitem_def)
qed

lemma change_list_to_dict_unchecked:
  "''ParameterName'' \<notin> ParameterName ` set xs \<Longrightarrow>
   \<exists>d. change_list_to_dict xs ''ParameterName'' = Inr d"
  using change_list_to_dict_loop_unchecked[of "[]" xs] by (simp add: change_list_to_dict_def)

section \<open>The two loops of the comparison\<close>

lemma differing_delitem:
  "k \<notin> fst ` set items \<Longrightarrow> differing items (dict_delitem dp k) = differing items dp"
  unfolding differing_def
  by (rule filter_cong) (auto simp: map_of_dict_delitem image_iff)

lemma source_lines_delitem:
  "k \<notin> fst ` set items \<Longrightarrow>
   map (source_lines (dict_delitem dp k)) (differing items dp)
   = map (source_lines dp) (differing items dp)"
  by (rule map_cong) (auto simp: source_lines_def differing_def map_of_dict_delitem image_iff)

text \<open>
  The first loop, from any position: it cannot fail, it appends to the diff list the
  reported entries that carry a value, prints the lines of the reported entries, and
  deletes from the destination mapping the names of the reported entries.
\<close>

lemma compare_source_loop_result:
  assumes "distinct (map fst items)" "\<forall>ks\<in>set items. map_of sp (fst ks) = Some (snd ks)"
  shows "compare_source_loop items sp dp diff w =
    (Inr (filter (\<lambda>kd. fst kd \<notin> fst ` set (differing items dp)) dp,
          diff @ filter (\<lambda>s. ParameterValue s \<noteq> None) (map snd (differing items dp))),
     w\<lparr>stdout := stdout w @ concat (map (source_lines dp) (differing items dp))\<rparr>)"
  using assms
proof (induction items arbitrary: dp diff w)
  case Nil
  then show ?case by (simp add: differing_def return_io_def)
next
  case (Cons ks items)
  obtain k s where ks: "ks = (k, s)" by (cases ks)
  have sp: "dict_getitem sp k = Inr s" using Cons.prems(2) ks by (simp add: dict_getitem_def)
  have k_new: "k \<notin> fst ` set items" using Cons.prems(1) ks by simp
  have d': "distinct (map fst items)" "\<forall>ks\<in>set items. map_of sp (fst ks) = Some (snd ks)"
    using Cons.prems by simp_all
  have app: "append_if_value_present diff s =
      diff @ filter (\<lambda>s. ParameterValue s \<noteq> None) [s]"
    by (simp add: append_if_value_present_def has_key_def getitem_def split: option.splits)
  show ?case unfolding ks
  proof (cases "map_of dp k")
    case None
    then have nc: "\<not> dict_contains dp k" by (simp add: dict_contains_map_of)
    have df: "differing ((k, s) # items) dp = (k, s) # differing items dp"
      using None by (simp add: differing_def)
    have sl: "source_lines dp (k, s) = [NameLine k, Less s]"
      using None by (simp add: source_lines_def)
    have flt: "filter (\<lambda>kd. fst kd \<notin> fst ` set ((k, s) # differing items dp)) dp
        = filter (\<lambda>kd. fst kd \<notin> fst ` set (differing items dp)) dp"
      using nc by (intro filter_cong) (auto simp: dict_contains_def image_iff)
    show "compare_source_loop ((k, s) # items) sp dp diff w =
      (Inr (filter (\<lambda>kd. fst kd \<notin> fst ` set (differing ((k, s) # items) dp)) dp,
            diff @ filter (\<lambda>s. ParameterValue s \<noteq> None)
                     (map snd (differing ((k, s) # items) dp))),
       w\<lparr>stdout := stdout w @ concat (map (source_lines dp) (differing ((k, s) # items) dp))\<rparr>)"
      unfolding df flt
      using nc sp by (simp add: Cons.IH[OF d'] app sl)
  next
    case (Some d)
    then have c: "dict_contains dp k" by (simp add: dict_contains_map_of)
    have dp: "dict_getitem dp k = Inr d" using Some by (simp add: dict_getitem_def)
    show "compare_source_loop ((k, s) # items) sp dp diff w =
      (Inr (filter (\<lambda>kd. fst kd \<notin> fst ` set (differing ((k, s) # items) dp)) dp,
            diff @ filter (\<lambda>s. ParameterValue s \<noteq> None)
                     (map snd (differing ((k, s) # items) dp))),
       w\<lparr>stdout := stdout w @ concat (map (source_lines dp) (differing ((k, s) # items) dp))\<rparr>)"
    proof (cases "s = d")
      case True
      have df: "differing ((k, s) # items) dp = differing items dp"
        using Some True by (simp add: differing_def)
      show ?thesis unfolding df using c sp dp True by (simp add: Cons.IH[OF d'])
    next
      case False
      have df: "differing ((k, s) # items) dp = (k, s) # differing items dp"
        using Some False by (simp add: differing_def)
      have sl: "source_lines dp (k, s) = [NameLine k, Less s, Greater d]"
        using Some by (simp add: source_lines_def)
      have flt: "filter (\<lambda>kd. fst kd \<notin> fst ` set (differing items dp)) (dict_delitem dp k)
          = filter (\<lambda>kd. fst kd \<notin> fst ` set ((k, s) # differing items dp)) dp"
        by (auto simp: dict_delitem_def intro: filter_cong)
      show ?thesis
        unfolding df
        using c sp dp False
        by (simp add: Cons.IH[OF d'] app differing_delitem[OF k_new]
              source_lines_delitem[OF k_new] flt sl)
    qed
  qed
qed

lemma compare_dest_loop_result:
  assumes "\<forall>kd\<in>set items. map_of dp (fst kd) = Some (snd kd)"
  shows "compare_dest_loop items sp dp w =
    (Inr (), w\<lparr>stdout := stdout w @ concat (map dest_lines (dest_only sp items))\<rparr>)"
  using assms
proof (induction items arbitrary: w)
  case Nil
  then show ?case by (simp add: dest_only_def return_io_def)
next
  case (Cons kd items)
  obtain k d where kd: "kd = (k, d)" by (cases kd)
  have dp: "dict_getitem dp k = Inr d" using Cons.prems kd by (simp add: dict_getitem_def)
  have IH: "\<And>w. compare_dest_loop items sp dp w =
    (Inr (), w\<lparr>stdout := stdout w @ concat (map dest_lines (dest_only sp items))\<rparr>)"
    using Cons by simp
  have dl: "dest_lines (k, d) = [NameLine k, Greater d]" by (simp add: dest_lines_def)
  have dn: "dest_only sp ((k, d) # items) =
      (if dict_contains sp k then dest_only sp items else (k, d) # dest_only sp items)"
    by (simp add: dest_only_def)
  show ?case unfolding kd using dp by (simp add: IH dn dl)
qed

section \<open>The comparison of two collections\<close>

lemma map_of_distinct_entry:
  "distinct (map fst d) \<Longrightarrow> \<forall>kv\<in>set d. map_of d (fst kv) = Some (snd kv)"
  by auto

lemma concat_map_split:
  "x \<in> set xs \<Longrightarrow> \<exists>pre post. concat (map f xs) = pre @ f x @ post"
proof -
  assume "x \<in> set xs"
  then obtain ys zs where "xs = ys @ x # zs" by (auto dest: split_list)
  then have "concat (map f xs) = concat (map f ys) @ f x @ concat (map f zs)" by simp
  then show ?thesis by blast
qed

text \<open>
  What the comparison returns and prints once both collections are reindexed; when a
  reindexing fails, the comparison fails with its error and prints nothing.
\<close>

lemma compare_collections_result:
  assumes sd: "change_list_to_dict src ''ParameterName'' = Inr sd"
    and dd: "change_list_to_dict dst ''ParameterName'' = Inr dd"
  shows "compare_collections src dst return_list w =
    (Inr (if return_list
          then Some (filter (\<lambda>s. ParameterValue s \<noteq> None) (map snd (differing sd dd)))
          else None),
     w\<lparr>stdout := stdout w @ concat (map (source_lines dd) (differing sd dd))
                 @ concat (map dest_lines (dest_only sd dd))
                 @ [Blank, Blank] @ (if return_list then [] else [Complete])\<rparr>)"
proof -
  let ?dp = "filter (\<lambda>kd. fst kd \<notin> fst ` set (differing sd dd)) dd"
  have dsd: "distinct (map fst sd)" and ddd: "distinct (map fst dd)"
    using change_list_to_dict_name(3)[OF sd] change_list_to_dict_name(3)[OF dd] by simp_all
  have l1: "\<And>w. compare_source_loop sd sd dd [] w =
    (Inr (?dp, [] @ filter (\<lambda>s. ParameterValue s \<noteq> None) (map snd (differing sd dd))),
     w\<lparr>stdout := stdout w @ concat (map (source_lines dd) (differing sd dd))\<rparr>)"
    using dsd by (intro compare_source_loop_result map_of_distinct_entry)
  have "distinct (map fst ?dp)" using ddd by (simp add: distinct_map_filter)
  then have l2: "\<And>w. compare_dest_loop ?dp sd ?dp w =
    (Inr (), w\<lparr>stdout := stdout w @ concat (map dest_lines (dest_only sd ?dp))\<rparr>)"
    by (intro compare_dest_loop_result map_of_distinct_entry)
  have "fst ` set (differing sd dd) \<subseteq> fst ` set sd" by (auto simp: differing_def)
  then have d_only: "dest_only sd ?dp = dest_only sd dd"
    unfolding dest_only_def filter_filter
    by (intro filter_cong) (auto simp: dict_contains_def)
  show ?thesis
    unfolding compare_collections_def
    by (simp add: sd dd bind_io_Inr[where m = "compare_source_loop sd sd dd []", OF l1]
          bind_io_Inr[where m = "compare_dest_loop ?dp sd ?dp", OF l2] d_only return_io_def)
qed

lemma compare_collections_returns:
  assumes "compare_collections src dst return_list w = (Inr result, w')"
  shows "\<exists>sd dd. change_list_to_dict src ''ParameterName'' = Inr sd
           \<and> change_list_to_dict dst ''ParameterName'' = Inr dd"
proof (cases "change_list_to_dict src ''ParameterName''")
  case (Inl e)
  then show ?thesis using assms by (simp add: compare_collections_def)
next
  case sd: (Inr sd)
  show ?thesis
  proof (cases "change_list_to_dict dst ''ParameterName''")
    case (Inl e)
    then show ?thesis using assms sd by (simp add: compare_collections_def)
  next
    case (Inr dd)
    then show ?thesis using sd by simp
  qed
qed

lemma compare_collections_error:
  assumes "compare_collections src dst return_list w = (Inl e, w')"
  shows "e = Exception ''This key name is not unique.'' \<and> w' = w"
proof (cases "change_list_to_dict src ''ParameterName''")
  case (Inl e')
  then show ?thesis using assms change_list_to_dict_error[OF Inl]
    by (simp add: compare_collections_def)
next
  case sd: (Inr sd)
  show ?thesis
  proof (cases "change_list_to_dict dst ''ParameterName''")
    case (Inl e')
    then show ?thesis using assms sd change_list_to_dict_error[OF Inl]
      by (simp add: compare_collections_def)
  next
    case (Inr dd)
    then show ?thesis using assms compare_collections_result[OF sd Inr] by simp
  qed
qed

text \<open>
  The comparison returns for every pair of collections in which no record is named like
  the key field.
\<close>

lemma compare_collections_total:
  assumes "''ParameterName'' \<notin> ParameterName ` set src"
    and "''ParameterName'' \<notin> ParameterName ` set dst"
  shows "\<exists>result w'. compare_collections src dst return_list w = (Inr result, w')"
proof -
  obtain sd where sd: "change_list_to_dict src ''ParameterName'' = Inr sd"
    using change_list_to_dict_unchecked[OF assms(1)] by blast
  obtain dd where dd: "change_list_to_dict dst ''ParameterName'' = Inr dd"
    using change_list_to_dict_unchecked[OF assms(2)] by blast
  show ?thesis unfolding compare_collections_result[OF sd dd] by (intro exI) (rule refl)
qed

section \<open>Destination-only records and valueless records\<close>

lemma reindexed_entry:
  assumes "change_list_to_dict xs ''ParameterName'' = Inr d" "(k, p) \<in> set d"
  shows "k = PyStr (ParameterName p)" "p \<in> set xs" "map_of d k = Some p"
  using change_list_to_dict_name(2,3)[OF assms(1)] assms(2) by auto

lemma reindexed_name:
  assumes "change_list_to_dict xs ''ParameterName'' = Inr d" "p \<in> set xs"
  shows "\<exists>q\<in>set xs. ParameterName q = ParameterName p \<and> (PyStr (ParameterName p), q) \<in> set d"
proof -
  have "PyStr (ParameterName p) \<in> fst ` set d"
    using change_list_to_dict_name(1)[OF assms(1)] assms(2) by auto
  then obtain q where q: "(PyStr (ParameterName p), q) \<in> set d" by auto
  then show ?thesis using reindexed_entry(1,2)[OF assms(1) q] by auto
qed

lemma reindexed_distinct:
  assumes "change_list_to_dict xs ''ParameterName'' = Inr d" "p \<in> set xs"
    "distinct (map ParameterName xs)"
  shows "(PyStr (ParameterName p), p) \<in> set d"
proof -
  obtain q where q: "q \<in> set xs" "ParameterName q = ParameterName p"
    "(PyStr (ParameterName p), q) \<in> set d"
    using reindexed_name[OF assms(1,2)] by blast
  have "inj_on ParameterName (set xs)" using assms(3) by (simp add: distinct_map)
  then have "q = p" using q(1,2) assms(2) by (auto dest: inj_onD)
  then show ?thesis using q(3) by simp
qed

text \<open>
  C2. For every pair of collections whose comparison returns: every record name that is
  present in the destination and absent from the source is printed as destination-only
  (its name line, then the line of a destination record of that name), and no record of
  that name is in the returned diff list; the diff list holds source records only, none of them equal to the
  destination's record of the same name; and a diff list is returned when one is asked for.
\<close>

theorem compare_destination_only:
  assumes "compare_collections src dst return_list w = (Inr result, w')"
  shows "(\<forall>n. n \<in> ParameterName ` set dst \<and> n \<notin> ParameterName ` set src \<longrightarrow>
            (\<exists>d\<in>set dst. ParameterName d = n \<and>
               (\<exists>pre post. stdout w' = stdout w @ pre @ [NameLine (PyStr n), Greater d] @ post))
          \<and> (\<forall>diff. result = Some diff \<longrightarrow> (\<forall>p\<in>set diff. ParameterName p \<noteq> n)))
       \<and> (\<forall>diff. result = Some diff \<longrightarrow>
            set diff \<subseteq> set src
          \<and> (distinct (map ParameterName dst) \<longrightarrow> (\<forall>p\<in>set diff. p \<notin> set dst)))
       \<and> (return_list \<longrightarrow> (\<exists>diff. result = Some diff))"
proof -
  obtain sd dd where sd: "change_list_to_dict src ''ParameterName'' = Inr sd"
    and dd: "change_list_to_dict dst ''ParameterName'' = Inr dd"
    using compare_collections_returns[OF assms] by blast
  let ?diff = "filter (\<lambda>s. ParameterValue s \<noteq> None) (map snd (differing sd dd))"
  let ?tail = "[Blank, Blank] @ (if return_list then [] else [Complete])"
  have res: "result = (if return_list then Some ?diff else None)"
    and out: "stdout w' = stdout w @ concat (map (source_lines dd) (differing sd dd))
                 @ concat (map dest_lines (dest_only sd dd)) @ ?tail"
    using assms compare_collections_result[OF sd dd, of return_list w] by auto
  have diff_src: "set ?diff \<subseteq> set src"
    using reindexed_entry(2)[OF sd] by (auto simp: differing_def)
  have a: "\<exists>d\<in>set dst. ParameterName d = n \<and>
               (\<exists>pre post. stdout w' = stdout w @ pre @ [NameLine (PyStr n), Greater d] @ post)"
    if n: "n \<in> ParameterName ` set dst" "n \<notin> ParameterName ` set src" for n
  proof -
    obtain p where p: "p \<in> set dst" "ParameterName p = n" using n(1) by auto
    obtain d where d: "d \<in> set dst" "ParameterName d = n" "(PyStr n, d) \<in> set dd"
      using reindexed_name[OF dd p(1)] p(2) by auto
    have "\<not> dict_contains sd (PyStr n)"
      using change_list_to_dict_name(1)[OF sd] n(2) by (auto simp: dict_contains_def)
    then have "(PyStr n, d) \<in> set (dest_only sd dd)" using d(3) by (simp add: dest_only_def)
    then obtain pre post where
      "concat (map dest_lines (dest_only sd dd)) = pre @ dest_lines (PyStr n, d) @ post"
      using concat_map_split[of "(PyStr n, d)" "dest_only sd dd" dest_lines] by blast
    then have "stdout w' = stdout w
        @ (concat (map (source_lines dd) (differing sd dd)) @ pre)
        @ [NameLine (PyStr n), Greater d] @ (post @ ?tail)"
      using out by (simp add: dest_lines_def)
    then have "\<exists>pre post. stdout w' = stdout w @ pre @ [NameLine (PyStr n), Greater d] @ post"
      by (intro exI)
    then show ?thesis using d(1,2) by (intro bexI[of _ d] conjI)
  qed
  have b: "p \<notin> set dst"
    if dm: "distinct (map ParameterName dst)" and pm: "p \<in> set ?diff" for p
  proof
    assume pd: "p \<in> set dst"
    obtain k where k: "(k, p) \<in> set sd" "map_of dd k \<noteq> Some p"
      using pm by (auto simp: differing_def)
    have "k = PyStr (ParameterName p)" using reindexed_entry(1)[OF sd k(1)] .
    moreover have "(PyStr (ParameterName p), p) \<in> set dd"
      using reindexed_distinct[OF dd pd dm] .
    ultimately show False using k(2) reindexed_entry(3)[OF dd] by auto
  qed
  have diff_eq: "diff = ?diff" if "result = Some diff" for diff
    using that res by (simp split: if_splits)
  have A: "\<forall>n. n \<in> ParameterName ` set dst \<and> n \<notin> ParameterName ` set src \<longrightarrow>
            (\<exists>d\<in>set dst. ParameterName d = n \<and>
               (\<exists>pre post. stdout w' = stdout w @ pre @ [NameLine (PyStr n), Greater d] @ post))
          \<and> (\<forall>diff. result = Some diff \<longrightarrow> (\<forall>p\<in>set diff. ParameterName p \<noteq> n))"
  proof (intro allI impI conjI ballI)
    fix n assume n: "n \<in> ParameterName ` set dst \<and> n \<notin> ParameterName ` set src"
    show "\<exists>d\<in>set dst. ParameterName d = n \<and>
               (\<exists>pre post. stdout w' = stdout w @ pre @ [NameLine (PyStr n), Greater d] @ post)"
      using n by (intro a) simp_all
    fix diff p assume "result = Some diff" "p \<in> set diff"
    then have "p \<in> set src" using diff_eq diff_src by auto
    then show "ParameterName p \<noteq> n" using n by blast
  qed
  have B: "\<forall>diff. result = Some diff \<longrightarrow>
            set diff \<subseteq> set src
          \<and> (distinct (map ParameterName dst) \<longrightarrow> (\<forall>p\<in>set diff. p \<notin> set dst))"
  proof (intro allI impI conjI ballI)
    fix diff assume r: "result = Some diff"
    show "set diff \<subseteq> set src" using diff_eq[OF r] diff_src by simp
    fix p assume "distinct (map ParameterName dst)" "p \<in> set diff"
    then show "p \<notin> set dst" using b diff_eq[OF r] by simp
  qed
  have C: "return_list \<longrightarrow> (\<exists>diff. result = Some diff)" using res by simp
  show ?thesis by (intro conjI A B C)
qed

lemma compare_collections_example:
  "compare_collections [par_x, par_y, par_c] [par_y', par_z] True (fresh [])
   = (Inr (Some [par_x, par_y]),
      \<lparr>responses = [], calls = [],
       stdout = [NameLine (PyStr ''x''), Less par_x,
                 NameLine (PyStr ''y''), Less par_y, Greater par_y',
                 NameLine (PyStr ''c''), Less par_c,
                 NameLine (PyStr ''z''), Greater par_z, Blank, Blank]\<rparr>)"
  by (simp add: compare_collections_def change_list_to_dict_def dict_contains_def getitem_def
        dict_getitem_def dict_delitem_def append_if_value_present_def has_key_def
        bind_io_def lift_io_def print_io_def return_io_def)

theorem compare_destination_only_witness:
  "compare_collections [par_x, par_y, par_c] [par_y', par_z] True (fresh [])
   = (Inr (Some [par_x, par_y]),
      \<lparr>responses = [], calls = [],
       stdout = [NameLine (PyStr ''x''), Less par_x,
                 NameLine (PyStr ''y''), Less par_y, Greater par_y',
                 NameLine (PyStr ''c''), Less par_c,
                 NameLine (PyStr ''z''), Greater par_z, Blank, Blank]\<rparr>)
   \<and> (\<exists>pre post.
         [NameLine (PyStr ''x''), Less par_x,
          NameLine (PyStr ''y''), Less par_y, Greater par_y',
          NameLine (PyStr ''c''), Less par_c,
          NameLine (PyStr ''z''), Greater par_z, Blank, Blank]
         = pre @ [NameLine (PyStr ''z''), Greater par_z] @ post)
   \<and> set [par_x, par_y] \<subseteq> set [par_x, par_y, par_c]"
proof -
  note h = compare_collections_example
  have "\<exists>d\<in>set [par_y', par_z]. ParameterName d = ''z'' \<and>
      (\<exists>pre post. stdout \<lparr>responses = [], calls = [],
       stdout = [NameLine (PyStr ''x''), Less par_x,
                 NameLine (PyStr ''y''), Less par_y, Greater par_y',
                 NameLine (PyStr ''c''), Less par_c,
                 NameLine (PyStr ''z''), Greater par_z, Blank, Blank]\<rparr>
         = stdout (fresh []) @ pre @ [NameLine (PyStr ''z''), Greater d] @ post)"
    using compare_destination_only[OF h, THEN conjunct1, rule_format, of "''z''"] by simp
  then have z: "\<exists>pre post.
         [NameLine (PyStr ''x''), Less par_x,
          NameLine (PyStr ''y''), Less par_y, Greater par_y',
          NameLine (PyStr ''c''), Less par_c,
          NameLine (PyStr ''z''), Greater par_z, Blank, Blank]
         = pre @ [NameLine (PyStr ''z''), Greater par_z] @ post"
    by simp
  show ?thesis using h z by simp
qed

text \<open>
  C4. For every pair of collections whose comparison returns: a record of the reindexed
  source that is source-only or changed (the destination mapping holds no equal record
  under its name) and carries no value is not in the returned diff list, and its name
  line and its source line are printed in the report. Every entry of the reindexed source
  is a source record under its own name, and when the source names are unique every
  source record is such an entry.
\<close>

theorem compare_valueless_reported_not_returned:
  assumes "compare_collections src dst return_list w = (Inr result, w')"
  shows "\<exists>sd dd. change_list_to_dict src ''ParameterName'' = Inr sd
      \<and> change_list_to_dict dst ''ParameterName'' = Inr dd
      \<and> (distinct (map ParameterName src) \<longrightarrow> snd ` set sd = set src)
      \<and> (\<forall>ks\<in>set sd. fst ks = PyStr (ParameterName (snd ks)) \<and> snd ks \<in> set src)
      \<and> (\<forall>ks\<in>set sd. ParameterValue (snd ks) = None \<and> map_of dd (fst ks) \<noteq> Some (snd ks) \<longrightarrow>
           (\<forall>diff. result = Some diff \<longrightarrow> snd ks \<notin> set diff)
         \<and> (\<exists>pre post. stdout w' = stdout w @ pre @ [NameLine (fst ks), Less (snd ks)] @ post))"
proof -
  obtain sd dd where sd: "change_list_to_dict src ''ParameterName'' = Inr sd"
    and dd: "change_list_to_dict dst ''ParameterName'' = Inr dd"
    using compare_collections_returns[OF assms] by blast
  let ?diff = "filter (\<lambda>s. ParameterValue s \<noteq> None) (map snd (differing sd dd))"
  let ?tail = "concat (map dest_lines (dest_only sd dd))
                 @ [Blank, Blank] @ (if return_list then [] else [Complete])"
  have res: "result = (if return_list then Some ?diff else None)"
    and out: "stdout w' = stdout w @ concat (map (source_lines dd) (differing sd dd)) @ ?tail"
    using assms compare_collections_result[OF sd dd, of return_list w] by auto
  have A: "distinct (map ParameterName src) \<longrightarrow> snd ` set sd = set src"
  proof (intro impI set_eqI iffI)
    fix p assume "p \<in> snd ` set sd"
    then show "p \<in> set src" using reindexed_entry(2)[OF sd] by auto
  next
    fix p assume "distinct (map ParameterName src)" "p \<in> set src"
    then have "(PyStr (ParameterName p), p) \<in> set sd" using reindexed_distinct[OF sd] by simp
    then show "p \<in> snd ` set sd" by force
  qed
  have B: "\<forall>ks\<in>set sd. fst ks = PyStr (ParameterName (snd ks)) \<and> snd ks \<in> set src"
    using reindexed_entry(1,2)[OF sd] by auto
  have C: "\<forall>ks\<in>set sd. ParameterValue (snd ks) = None \<and> map_of dd (fst ks) \<noteq> Some (snd ks) \<longrightarrow>
           (\<forall>diff. result = Some diff \<longrightarrow> snd ks \<notin> set diff)
         \<and> (\<exists>pre post. stdout w' = stdout w @ pre @ [NameLine (fst ks), Less (snd ks)] @ post)"
  proof (intro ballI impI conjI allI)
    fix ks diff
    assume ks: "ks \<in> set sd"
      and v: "ParameterValue (snd ks) = None \<and> map_of dd (fst ks) \<noteq> Some (snd ks)"
    { assume "result = Some diff"
      then have "diff = ?diff" using res by (simp split: if_splits)
      then show "snd ks \<notin> set diff" using v by auto }
    have "ks \<in> set (differing sd dd)" using ks v by (simp add: differing_def)
    then obtain pre post where
      "concat (map (source_lines dd) (differing sd dd)) = pre @ source_lines dd ks @ post"
      using concat_map_split[of ks "differing sd dd" "source_lines dd"] by blast
    moreover obtain more where "source_lines dd ks = [NameLine (fst ks), Less (snd ks)] @ more"
      by (cases "map_of dd (fst ks)") (simp_all add: source_lines_def)
    ultimately have "stdout w' = stdout w @ pre @ [NameLine (fst ks), Less (snd ks)]
        @ (more @ post @ ?tail)"
      using out by simp
    then show "\<exists>pre post. stdout w' = stdout w @ pre @ [NameLine (fst ks), Less (snd ks)] @ post"
      by (intro exI)
  qed
  show ?thesis
    by (rule exI[of _ sd], rule exI[of _ dd], intro conjI)
       (fact sd, fact dd, fact A, fact B, fact C)
qed

theorem compare_valueless_reported_not_returned_witness:
  "compare_collections [par_x, par_y, par_c] [par_y', par_z] True (fresh [])
   = (Inr (Some [par_x, par_y]),
      \<lparr>responses = [], calls = [],
       stdout = [NameLine (PyStr ''x''), Less par_x,
                 NameLine (PyStr ''y''), Less par_y, Greater par_y',
                 NameLine (PyStr ''c''), Less par_c,
                 NameLine (PyStr ''z''), Greater par_z, Blank, Blank]\<rparr>)
   \<and> ParameterValue par_c = None \<and> par_c \<notin> set [par_x, par_y]
   \<and> (\<exists>pre post.
         [NameLine (PyStr ''x''), Less par_x,
          NameLine (PyStr ''y''), Less par_y, Greater par_y',
          NameLine (PyStr ''c''), Less par_c,
          NameLine (PyStr ''z''), Greater par_z, Blank, Blank]
         = pre @ [NameLine (PyStr ''c''), Less par_c] @ post)"
proof -
  note h = compare_collections_example
  have s: "change_list_to_dict [par_x, par_y, par_c] ''ParameterName''
      = Inr [(PyStr ''x'', par_x), (PyStr ''y'', par_y), (PyStr ''c'', par_c)]"
    and d: "change_list_to_dict [par_y', par_z] ''ParameterName''
      = Inr [(PyStr ''y'', par_y'), (PyStr ''z'', par_z)]"
    by (simp_all add: change_list_to_dict_def dict_contains_def getitem_def)
  have "\<forall>ks\<in>set [(PyStr ''x'', par_x), (PyStr ''y'', par_y), (PyStr ''c'', par_c)].
      ParameterValue (snd ks) = None
      \<and> map_of [(PyStr ''y'', par_y'), (PyStr ''z'', par_z)] (fst ks) \<noteq> Some (snd ks) \<longrightarrow>
           (\<forall>diff. Some [par_x, par_y] = Some diff \<longrightarrow> snd ks \<notin> set diff)
         \<and> (\<exists>pre post. stdout \<lparr>responses = [], calls = [],
       stdout = [NameLine (PyStr ''x''), Less par_x,
                 NameLine (PyStr ''y''), Less par_y, Greater par_y',
                 NameLine (PyStr ''c''), Less par_c,
                 NameLine (PyStr ''z''), Greater par_z, Blank, Blank]\<rparr>
            = stdout (fresh []) @ pre @ [NameLine (fst ks), Less (snd ks)] @ post)"
    using compare_valueless_reported_not_returned[OF h] unfolding s d by simp
  then have c: "\<exists>pre post.
         [NameLine (PyStr ''x''), Less par_x,
          NameLine (PyStr ''y''), Less par_y, Greater par_y',
          NameLine (PyStr ''c''), Less par_c,
          NameLine (PyStr ''z''), Greater par_z, Blank, Blank]
         = pre @ [NameLine (PyStr ''c''), Less par_c] @ post"
    by simp
  show ?thesis using h c by simp
qed

section \<open>Records that reach the batch applier\<close>

lemma ends_well_bind:
  "ends_well m w (\<lambda>x w1. ends_well (f x) w1 Q) \<Longrightarrow> ends_well (bind_io m f) w Q"
  by (auto simp: ends_well_def bind_io_def split: prod.splits sum.splits)

lemma ends_well_weaken:
  "ends_well m w Q \<Longrightarrow> (\<And>x w'. Q x w' \<Longrightarrow> Q' x w') \<Longrightarrow> ends_well m w Q'"
  by (auto simp: ends_well_def split: prod.splits sum.splits)

lemma ends_well_bind_any:
  "ends_well m w (\<lambda>x w'. True) \<Longrightarrow> (\<And>x w1. ends_well (f x) w1 Q) \<Longrightarrow>
   ends_well (bind_io m f) w Q"
  by (rule ends_well_bind) (erule ends_well_weaken)

lemma ends_well_return: "Q x w \<Longrightarrow> ends_well (return_io x) w Q"
  by (simp add: ends_well_def return_io_def)

lemma ends_well_raise:
  "e \<noteq> KeyError (PyStr ''ParameterValue'') \<Longrightarrow> ends_well (raise_io e) w Q"
  by (simp add: ends_well_def raise_io_def)

lemma ends_well_print: "ends_well (print_io l) w (\<lambda>x w'. True)"
  by (simp add: ends_well_def print_io_def)

lemma ends_well_remote_call: "ends_well (remote_call c rq) w (\<lambda>x w'. True)"
  by (simp add: ends_well_def remote_call_def split: list.splits sum.splits)

lemma ends_well_first_group: "ends_well (lift_io (first_group s)) w (\<lambda>x w'. True)"
  by (simp add: ends_well_def lift_io_def first_group_def split: option.splits list.splits)

lemma ends_well_return_all_parameters_loop:
  "ends_well (return_all_parameters_loop c g tok acc) w (\<lambda>x w'. True)"
proof (induction c g tok acc w rule: return_all_parameters_loop.induct)
  case (1 c g tok acc w)
  show ?case
  proof (cases "tok = TokenFalse")
    case True
    then show ?thesis by (simp add: ends_well_def return_all_parameters_loop.simps)
  next
    case False
    obtain x w1 where call: "describe_db_parameters c g (marker_of tok) w = (x, w1)"
      by (cases "describe_db_parameters c g (marker_of tok) w")
    have ok: "ends_well (describe_db_parameters c g (marker_of tok)) w (\<lambda>x w'. True)"
      unfolding describe_db_parameters_def by (rule ends_well_remote_call)
    show ?thesis
    proof (cases x)
      case (Inl e)
      then show ?thesis using ok call False
        by (simp add: ends_well_def return_all_parameters_loop.simps[of c g tok acc w])
    next
      case (Inr chunk)
      show ?thesis
      proof (cases "Parameters chunk")
        case None
        then show ?thesis using call False Inr
          by (simp add: ends_well_def return_all_parameters_loop.simps[of c g tok acc w])
      next
        case (Some ps)
        have "ends_well (return_all_parameters_loop c g (next_token chunk) (acc @ ps)) w1
                (\<lambda>x w'. True)"
          using "1.IH"[OF False call[symmetric] _ Some] Inr by simp
        then show ?thesis using call False Inr Some
          by (simp add: ends_well_def return_all_parameters_loop.simps[of c g tok acc w])
      qed
    qed
  qed
qed

lemma ends_well_return_parameter_groups_loop:
  "ends_well (return_parameter_groups_loop c tok acc) w (\<lambda>x w'. True)"
proof (induction c tok acc w rule: return_parameter_groups_loop.induct)
  case (1 c tok acc w)
  show ?case
  proof (cases "tok = TokenFalse")
    case True
    then show ?thesis by (simp add: ends_well_def return_parameter_groups_loop.simps)
  next
    case False
    obtain x w1 where call: "describe_db_parameter_groups c None (marker_of tok) w = (x, w1)"
      by (cases "describe_db_parameter_groups c None (marker_of tok) w")
    have ok: "ends_well (describe_db_parameter_groups c None (marker_of tok)) w (\<lambda>x w'. True)"
      unfolding describe_db_parameter_groups_def by (rule ends_well_remote_call)
    show ?thesis
    proof (cases x)
      case (Inl e)
      then show ?thesis using ok call False
        by (simp add: ends_well_def return_parameter_groups_loop.simps[of c tok acc w])
    next
      case (Inr chunk)
      show ?thesis
      proof (cases "DBParameterGroups chunk")
        case None
        then show ?thesis using call False Inr
          by (simp add: ends_well_def return_parameter_groups_loop.simps[of c tok acc w])
      next
        case (Some gs)
        have "ends_well (return_parameter_groups_loop c (next_token chunk)
                (acc @ map DBParameterGroupName gs)) w1 (\<lambda>x w'. True)"
          using "1.IH"[OF False call[symmetric] _ Some] Inr by simp
        then show ?thesis using call False Inr Some
          by (simp add: ends_well_def return_parameter_groups_loop.simps[of c tok acc w])
      qed
    qed
  qed
qed

lemma ends_well_fetch:
  "ends_well (return_all_parameters_from_parameter_group c g) w (\<lambda>x w'. True)"
  unfolding return_all_parameters_from_parameter_group_def
  by (rule ends_well_return_all_parameters_loop)

lemma ends_well_groups: "ends_well (return_parameter_groups c) w (\<lambda>x w'. True)"
  unfolding return_parameter_groups_def by (rule ends_well_return_parameter_groups_loop)

lemma ends_well_modifiable:
  "ends_well (return_all_modifiable_parameters_with_value_from_parameter_group c g) w
     (\<lambda>ps w'. all_valued ps)"
  unfolding return_all_modifiable_parameters_with_value_from_parameter_group_def
  by (intro ends_well_bind_any ends_well_fetch ends_well_return)
     (simp add: all_valued_def modifiable_with_value_filter list_all_iff)

lemma ends_well_compare_collections:
  "ends_well (compare_collections src dst return_list) w
     (\<lambda>r w'. \<forall>diff. r = Some diff \<longrightarrow> all_valued diff)"
proof (cases "compare_collections src dst return_list w")
  case (Pair r w')
  show ?thesis
  proof (cases r)
    case (Inl e)
    then show ?thesis using Pair compare_collections_error[of src dst return_list w e w']
      by (simp add: ends_well_def)
  next
    case (Inr result)
    then obtain sd dd where sd: "change_list_to_dict src ''ParameterName'' = Inr sd"
      and dd: "change_list_to_dict dst ''ParameterName'' = Inr dd"
      using compare_collections_returns[of src dst return_list w result w'] Pair by auto
    show ?thesis
      by (simp add: ends_well_def compare_collections_result[OF sd dd] all_valued_def
            list_all_iff)
  qed
qed

lemma ends_well_print_parameters:
  "all_valued ps \<Longrightarrow> ends_well (print_parameters ps) w (\<lambda>x w'. True)"
  by (simp add: ends_well_def all_valued_def list_all_iff print_parameters_valued)

lemma ends_well_post_chunks:
  "list_all all_valued cs \<Longrightarrow> ends_well (post_chunks c g cs) w (\<lambda>x w'. True)"
proof (induction cs arbitrary: w)
  case Nil
  then show ?case by (simp add: ends_well_return)
next
  case (Cons ch cs)
  show ?case
    unfolding post_chunks.simps
    apply (rule ends_well_bind_any)
     apply (unfold modify_db_parameter_group_def, rule ends_well_remote_call)
    apply (rule ends_well_bind_any)
     apply (rule ends_well_print_parameters)
    using Cons.prems apply simp
    using Cons apply simp
    done
qed

lemma ends_well_post:
  "all_valued ps \<Longrightarrow> ends_well (post_parameters_to_group c g ps) w (\<lambda>x w'. True)"
proof -
  assume v: "all_valued ps"
  obtain cs where cs: "chunks ps 20 = Some cs" "concat cs = ps"
    using chunks_of_twenty[of ps] by blast
  have "list_all all_valued cs"
    using v cs(2) by (auto simp: all_valued_def list_all_iff)
  then show ?thesis
    unfolding post_parameters_to_group_def
    by (simp add: cs(1) ends_well_post_chunks ends_well_return)
qed

lemma ends_well_describe_groups:
  "ends_well (describe_db_parameter_groups c n m) w (\<lambda>x w'. True)"
  unfolding describe_db_parameter_groups_def by (rule ends_well_remote_call)

lemma ends_well_if:
  "ends_well A w Q \<Longrightarrow> ends_well B w Q \<Longrightarrow> ends_well (if c then A else B) w Q"
  by simp

lemma ends_well_compare:
  "ends_well (compare_rds_parameters sc sg dc dg return_list) w
     (\<lambda>r w'. \<forall>diff. r = Some diff \<longrightarrow> all_valued diff)"
  unfolding compare_rds_parameters_def
  by (intro ends_well_bind_any ends_well_describe_groups ends_well_first_group ends_well_fetch
        ends_well_print ends_well_if ends_well_compare_collections)

lemma ends_well_merge:
  "ends_well (merge_rds_parameters sc sg dc dg) w (\<lambda>x w'. True)"
  unfolding merge_rds_parameters_def
proof (rule ends_well_bind, rule ends_well_weaken[OF ends_well_compare])
  fix r w1
  assume r: "\<forall>diff. r = Some diff \<longrightarrow> all_valued diff"
  show "ends_well (bind_io (print_io (MergingDifferences sg dg))
          (\<lambda>_. case r of None \<Rightarrow> raise_io TypeError
                | Some parameters \<Rightarrow> post_parameters_to_group dc dg parameters)) w1
          (\<lambda>x w'. True)"
  proof (rule ends_well_bind_any[OF ends_well_print])
    fix x w2
    show "ends_well (case r of None \<Rightarrow> raise_io TypeError
                | Some parameters \<Rightarrow> post_parameters_to_group dc dg parameters) w2
          (\<lambda>x w'. True)"
      using r by (cases r) (simp_all add: ends_well_raise ends_well_post)
  qed
qed

lemma ends_well_copy:
  "ends_well (copy_rds_parameters argv sc sg dc dg) w (\<lambda>x w'. True)"
  unfolding copy_rds_parameters_def create_db_parameter_group_def
  apply (rule ends_well_bind_any[OF ends_well_describe_groups])
  apply (rule ends_well_bind_any[OF ends_well_first_group])
  apply (rule ends_well_bind)
  apply (rule ends_well_weaken[OF ends_well_modifiable])
  apply (intro ends_well_bind_any ends_well_groups ends_well_if ends_well_raise ends_well_print
           ends_well_remote_call ends_well_post)
   apply simp_all
  done

lemma ends_well_no_value_error:
  "ends_well m w Q \<Longrightarrow> fst (m w) \<noteq> Inl (KeyError (PyStr ''ParameterValue''))"
  by (auto simp: ends_well_def split: prod.splits sum.splits)

lemma ends_well_result: "ends_well m w Q \<Longrightarrow> m w = (Inr x, w') \<Longrightarrow> Q x w'"
  by (simp add: ends_well_def)

text \<open>
  C10. The diff list that the comparison returns to the merge workflow and the list that
  the modifiable-filter returns to the copy workflow hold only records that carry a value;
  and neither workflow, from any world, fails on a missing \<^verbatim>\<open>ParameterValue\<close> key, which
  is the only key the report of the batch applier can miss.
\<close>

theorem value_presence_invariant:
  "(\<forall>diff w'. compare_rds_parameters sc sg dc dg True w = (Inr (Some diff), w') \<longrightarrow>
       (\<forall>p\<in>set diff. ParameterValue p \<noteq> None))
   \<and> (\<forall>ps w'. return_all_modifiable_parameters_with_value_from_parameter_group sc sg w
                  = (Inr ps, w') \<longrightarrow>
       (\<forall>p\<in>set ps. ParameterValue p \<noteq> None))
   \<and> fst (merge_rds_parameters sc sg dc dg w) \<noteq> Inl (KeyError (PyStr ''ParameterValue''))
   \<and> fst (copy_rds_parameters argv sc sg dc dg w) \<noteq> Inl (KeyError (PyStr ''ParameterValue''))"
proof (intro conjI allI impI)
  fix diff w'
  assume "compare_rds_parameters sc sg dc dg True w = (Inr (Some diff), w')"
  from ends_well_result[OF ends_well_compare this]
  show "\<forall>p\<in>set diff. ParameterValue p \<noteq> None" by (simp add: all_valued_def list_all_iff)
next
  fix ps w'
  assume "return_all_modifiable_parameters_with_value_from_parameter_group sc sg w = (Inr ps, w')"
  from ends_well_result[OF ends_well_modifiable this]
  show "\<forall>p\<in>set ps. ParameterValue p \<noteq> None" by (simp add: all_valued_def list_all_iff)
next
  show "fst (merge_rds_parameters sc sg dc dg w) \<noteq> Inl (KeyError (PyStr ''ParameterValue''))"
    by (rule ends_well_no_value_error[OF ends_well_merge])
next
  show "fst (copy_rds_parameters argv sc sg dc dg w) \<noteq> Inl (KeyError (PyStr ''ParameterValue''))"
    by (rule ends_well_no_value_error[OF ends_well_copy])
qed

lemma compare_rds_parameters_example:
  "compare_rds_parameters (Client ''us-east-1'') ''g'' (Client ''us-west-2'') ''h'' True
     (fresh [Inr (groups_page [group_g] None), Inr (page [par_x, par_c] None),
             Inr (groups_page [group_h] None), Inr (page [] None), Inr ack])
   = (Inr (Some [par_x]),
      \<lparr>responses = [Inr ack],
       calls = [(Client ''us-east-1'', DescribeDBParameterGroups (Some ''g'') None),
                (Client ''us-east-1'', DescribeDBParameters ''g'' None),
                (Client ''us-west-2'', DescribeDBParameterGroups (Some ''h'') None),
                (Client ''us-west-2'', DescribeDBParameters ''h'' None)],
       stdout = [Comparing ''g'' ''h'', NumberSource 2, NumberDest 0, Family ''mysql8.0'',
                 Blank, Blank, DiffLikeComparison, SourceGroupName ''g'', DestGroupName ''h'',
                 NameLine (PyStr ''x''), Less par_x, NameLine (PyStr ''c''), Less par_c,
                 Blank, Blank]\<rparr>)"
  by (simp add: compare_rds_parameters_def describe_db_parameter_groups_def
        describe_db_parameters_def remote_call_def first_group_def
        return_all_parameters_from_parameter_group_def return_all_parameters_loop.simps
        next_token_def compare_collections_def change_list_to_dict_def dict_contains_def
        getitem_def dict_getitem_def dict_delitem_def append_if_value_present_def has_key_def
        bind_io_def lift_io_def print_io_def return_io_def)

theorem value_presence_invariant_witness:
  "compare_rds_parameters (Client ''us-east-1'') ''g'' (Client ''us-west-2'') ''h'' True
     (fresh [Inr (groups_page [group_g] None), Inr (page [par_x, par_c] None),
             Inr (groups_page [group_h] None), Inr (page [] None), Inr ack])
   = (Inr (Some [par_x]),
      \<lparr>responses = [Inr ack],
       calls = [(Client ''us-east-1'', DescribeDBParameterGroups (Some ''g'') None),
                (Client ''us-east-1'', DescribeDBParameters ''g'' None),
                (Client ''us-west-2'', DescribeDBParameterGroups (Some ''h'') None),
                (Client ''us-west-2'', DescribeDBParameters ''h'' None)],
       stdout = [Comparing ''g'' ''h'', NumberSource 2, NumberDest 0, Family ''mysql8.0'',
                 Blank, Blank, DiffLikeComparison, SourceGroupName ''g'', DestGroupName ''h'',
                 NameLine (PyStr ''x''), Less par_x, NameLine (PyStr ''c''), Less par_c,
                 Blank, Blank]\<rparr>)
   \<and> ParameterValue par_x \<noteq> None
   \<and> fst (merge_rds_parameters (Client ''us-east-1'') ''g'' (Client ''us-west-2'') ''h''
     (fresh [Inr (groups_page [group_g] None), Inr (page [par_x, par_c] None),
             Inr (groups_page [group_h] None), Inr (page [] None), Inr ack]))
     \<noteq> Inl (KeyError (PyStr ''ParameterValue''))"
  using compare_rds_parameters_example
    value_presence_invariant[of "Client ''us-east-1''" "''g''" "Client ''us-west-2''" "''h''"
      "fresh [Inr (groups_page [group_g] None), Inr (page [par_x, par_c] None),
             Inr (groups_page [group_h] None), Inr (page [] None), Inr ack]"]
  by simp

end
